theory Spec2Isabelle
  imports Complex_Main "HOL-Library.Log_Nat"
begin

section \<open>JavaScript numbers\<close>

text \<open>
  Every value the widget stores or computes is a JavaScript number, a binary64 number
  of IEEE 754. A finite number is represented by the rational it denotes, \<open>Fin 0\<close>
  being \<open>+0\<close>; \<open>NZero\<close> is \<open>-0\<close>, and the two infinities and \<open>NaN\<close> are kept, because
  the source divides by \<open>maxZ - minZ\<close> without a guard and compares with \<open><\<close> and
  \<open>>\<close>, which are false on \<open>NaN\<close>. Every operation rounds its exact result to the
  nearest binary64 number, so a result can lose digits, overflow to an infinity or
  underflow to a zero, as it does when the source runs.
\<close>

datatype jsnum = Fin rat | NZero | PInf | NInf | NaN

text \<open>
  Rounding a positive rational to binary64, to nearest with ties to even. \<open>pow2 e\<close> is
  \<open>2\<^sup>e\<close>; \<open>ilog2 q\<close> is the exponent of the largest power of two not above \<open>q\<close>;
  \<open>ulp_exp q\<close> is the exponent of the last place of the 53-bit significand that holds
  \<open>q\<close>, and never below -1074, the last place of the subnormal numbers; \<open>rhe\<close>
  rounds to the nearest integer, a tie going to the even one. The result overflows to
  \<open>+Infinity\<close> when the rounded significand no longer fits below \<open>2\<^sup>1\<^sup>0\<^sup>2\<^sup>4\<close>.
\<close>

definition pow2 :: "int \<Rightarrow> rat" where
  "pow2 e = (if 0 \<le> e then 2 ^ nat e else 1 / 2 ^ nat (- e))"

definition ilog2 :: "rat \<Rightarrow> int" where
  "ilog2 q =
     (let (n, d) = quotient_of q;
          k = bitlen n - bitlen d
      in if pow2 k \<le> q then k else k - 1)"

definition rhe :: "rat \<Rightarrow> int" where
  "rhe x =
     (let f = \<lfloor>x\<rfloor>; r = x - of_int f
      in if r < 1 / 2 then f else if 1 / 2 < r then f + 1 else if even f then f else f + 1)"

definition ulp_exp :: "rat \<Rightarrow> int" where
  "ulp_exp q = max (- 1074) (ilog2 q - 52)"

definition round_pos :: "rat \<Rightarrow> jsnum" where
  "round_pos q =
     (let e = ulp_exp q; m = rhe (q / pow2 e)
      in if 971 < e \<or> (e = 971 \<and> 9007199254740992 \<le> m) then PInf
         else Fin (of_int m * pow2 e))"

text \<open>Unary minus, which changes the sign of a zero too.\<close>

fun js_neg :: "jsnum \<Rightarrow> jsnum" where
  "js_neg (Fin a) = (if a = 0 then NZero else Fin (- a))"
| "js_neg NZero = Fin 0"
| "js_neg PInf = NInf"
| "js_neg NInf = PInf"
| "js_neg NaN = NaN"

text \<open>
  The binary64 number nearest to the rational \<open>q\<close>. A negative \<open>q\<close> too small to be
  represented rounds to \<open>-0\<close>. The callers decide the sign of an exact zero.
\<close>

definition round64 :: "rat \<Rightarrow> jsnum" where
  "round64 q =
     (if q = 0 then Fin 0 else if 0 < q then round_pos q else js_neg (round_pos (- q)))"

text \<open>
  The four operations: the special cases of IEEE 754 first, then the exact result
  rounded. An exact sum of zero is \<open>+0\<close>, except that \<open>-0 + -0\<close> is \<open>-0\<close>; the sign of a
  zero product or quotient is the product of the signs of the operands.
\<close>

fun js_add :: "jsnum \<Rightarrow> jsnum \<Rightarrow> jsnum" where
  "js_add NaN b = NaN"
| "js_add a NaN = NaN"
| "js_add PInf NInf = NaN"
| "js_add NInf PInf = NaN"
| "js_add PInf b = PInf"
| "js_add a PInf = PInf"
| "js_add NInf b = NInf"
| "js_add a NInf = NInf"
| "js_add NZero NZero = NZero"
| "js_add NZero (Fin b) = Fin b"
| "js_add (Fin a) NZero = Fin a"
| "js_add (Fin a) (Fin b) = (if a + b = 0 then Fin 0 else round64 (a + b))"

definition js_sub :: "jsnum \<Rightarrow> jsnum \<Rightarrow> jsnum" where
  "js_sub a b = js_add a (js_neg b)"

fun js_mul :: "jsnum \<Rightarrow> jsnum \<Rightarrow> jsnum" where
  "js_mul NaN b = NaN"
| "js_mul a NaN = NaN"
| "js_mul (Fin a) (Fin b) =
     (if a * b = 0 then (if a < 0 \<or> b < 0 then NZero else Fin 0) else round64 (a * b))"
| "js_mul (Fin a) NZero = (if a < 0 then Fin 0 else NZero)"
| "js_mul NZero (Fin b) = (if b < 0 then Fin 0 else NZero)"
| "js_mul NZero NZero = Fin 0"
| "js_mul (Fin a) PInf = (if a = 0 then NaN else if 0 < a then PInf else NInf)"
| "js_mul (Fin a) NInf = (if a = 0 then NaN else if 0 < a then NInf else PInf)"
| "js_mul PInf (Fin b) = (if b = 0 then NaN else if 0 < b then PInf else NInf)"
| "js_mul NInf (Fin b) = (if b = 0 then NaN else if 0 < b then NInf else PInf)"
| "js_mul NZero PInf = NaN"
| "js_mul NZero NInf = NaN"
| "js_mul PInf NZero = NaN"
| "js_mul NInf NZero = NaN"
| "js_mul PInf PInf = PInf"
| "js_mul PInf NInf = NInf"
| "js_mul NInf PInf = NInf"
| "js_mul NInf NInf = PInf"

fun js_div :: "jsnum \<Rightarrow> jsnum \<Rightarrow> jsnum" where
  "js_div NaN b = NaN"
| "js_div a NaN = NaN"
| "js_div (Fin a) (Fin b) =
     (if b = 0 then (if a = 0 then NaN else if 0 < a then PInf else NInf)
      else if a = 0 then (if b < 0 then NZero else Fin 0)
      else round64 (a / b))"
| "js_div (Fin a) NZero = (if a = 0 then NaN else if 0 < a then NInf else PInf)"
| "js_div NZero (Fin b) = (if b = 0 then NaN else if b < 0 then Fin 0 else NZero)"
| "js_div NZero NZero = NaN"
| "js_div (Fin a) PInf = (if a < 0 then NZero else Fin 0)"
| "js_div (Fin a) NInf = (if a < 0 then Fin 0 else NZero)"
| "js_div NZero PInf = NZero"
| "js_div NZero NInf = Fin 0"
| "js_div PInf (Fin b) = (if b < 0 then NInf else PInf)"
| "js_div NInf (Fin b) = (if b < 0 then PInf else NInf)"
| "js_div PInf NZero = NInf"
| "js_div NInf NZero = PInf"
| "js_div PInf PInf = NaN"
| "js_div PInf NInf = NaN"
| "js_div NInf PInf = NaN"
| "js_div NInf NInf = NaN"

text \<open>
  The comparison \<open>a < b\<close> of two numbers; \<open>a > b\<close> is \<open>js_lt b a\<close>. Both are false when
  an operand is \<open>NaN\<close>, and the two zeros are equal.
\<close>

fun js_lt :: "jsnum \<Rightarrow> jsnum \<Rightarrow> bool" where
  "js_lt NaN b = False"
| "js_lt a NaN = False"
| "js_lt PInf b = False"
| "js_lt a NInf = False"
| "js_lt NInf b = True"
| "js_lt a PInf = True"
| "js_lt (Fin a) (Fin b) = (a < b)"
| "js_lt (Fin a) NZero = (a < 0)"
| "js_lt NZero (Fin b) = (0 < b)"
| "js_lt NZero NZero = False"

definition js_gt :: "jsnum \<Rightarrow> jsnum \<Rightarrow> bool" where
  "js_gt a b = js_lt b a"

text \<open>
  \<open>Math.round\<close>: the nearest integer, a tie going up; the result is \<open>-0\<close> for \<open>-0\<close> and
  for a negative number that rounds to zero.
\<close>

fun Math_round :: "jsnum \<Rightarrow> jsnum" where
  "Math_round (Fin a) =
     (if a < 0 \<and> \<lfloor>a + 1 / 2\<rfloor> = 0 then NZero else Fin (of_int \<lfloor>a + 1 / 2\<rfloor>))"
| "Math_round NZero = NZero"
| "Math_round PInf = PInf"
| "Math_round NInf = NInf"
| "Math_round NaN = NaN"

text \<open>
  A rational that is a binary64 number: zero, or a number that rounding leaves as it
  is.
\<close>

definition is_double :: "rat \<Rightarrow> bool" where
  "is_double q = (q = 0 \<or> round64 q = Fin q)"

text \<open>
  The bound on the error of one rounding that the statements use: half a unit in the
  last place of a 53-bit significand, or half the distance between two subnormal
  numbers.
\<close>

definition err_bound :: "rat \<Rightarrow> rat" where
  "err_bound q = \<bar>q\<bar> / 2 ^ 53 + pow2 (- 1075)"

text \<open>
  A number that lies in the closed interval from 0 to 1 (\<open>-0\<close> does: it equals 0).
\<close>

fun in_unit :: "jsnum \<Rightarrow> bool" where
  "in_unit (Fin a) = (0 \<le> a \<and> a \<le> 1)"
| "in_unit NZero = True"
| "in_unit PInf = False"
| "in_unit NInf = False"
| "in_unit NaN = False"

section \<open>The data model of the widget\<close>

text \<open>
  A cell of \<open>this.matrix\<close> is the object \<open>{value, color, fadedColor}\<close>. The two colour
  strings are the template \<open>hsl(h, s%, l%)\<close>; a colour is represented by the three
  numbers the template prints. The field \<open>value\<close> is written \<open>cell_value\<close>, and a
  leading underscore of a source name is written as the prefix \<open>u_\<close>.
\<close>

datatype color = HSL jsnum nat nat

record cell =
  cell_value :: jsnum
  cell_color :: color
  cell_fadedColor :: "color option"

text \<open>
  The arguments \<open>(x, y, value, data)\<close> of one call of the change callback, what a call
  of the callback does (it returns or it throws), and the exceptions: the \<open>TypeError\<close>
  that JavaScript raises when a property of \<open>undefined\<close> is read or written, and
  whatever the user's callback throws. \<open>OutOfRangeError\<close> is the error the
  specification names for a coordinate outside the grid; no statement of the source
  raises it, and it is here so that the statements can say so.
\<close>

type_synonym change_args = "int \<times> int \<times> jsnum \<times> jsnum list list"

datatype cb_result = Returns | Throws

datatype error = TypeError | CallbackError | OutOfRangeError

text \<open>
  The fields of \<open>this\<close> that the grid, the mesh elevations and the callback use.
  \<open>vertexPivots\<close> holds \<open>position.y\<close> of each pivot (the handle and its selection sphere
  are always moved together), \<open>vertices\<close> holds the \<open>z\<close> of the vertices of
  \<open>this.object.children[0].geometry\<close> in index order; both are \<open>None\<close> until
  \<open>_computeChart\<close> has run. \<open>calls\<close> is the record of the calls made to the callback,
  oldest first; it is the only thing the model keeps of the callback's own effects.
  The camera, the renderer, the label textures and the triangle colours written by
  \<open>_updateVertexColors\<close> belong to the rendering backend and are not represented:
  the backend is not part of the source, its calls are taken to return, and its plane
  geometry is taken to have one vertex for each cell of the grid.
\<close>

record widget =
  minZ :: jsnum
  maxZ :: jsnum
  XAxisNames :: "string list"
  YAxisNames :: "string list"
  mX :: nat
  mY :: nat
  matrix :: "cell list list"
  vertexPivots :: "jsnum list list option"
  vertices :: "jsnum list option"
  onMatrixDataChange :: "(change_args \<Rightarrow> cb_result) option"
  calls :: "change_args list"

text \<open>
  A method either returns, or throws with \<open>this\<close> in the state it had reached.
\<close>

datatype outcome = Returned widget | Thrown error widget

fun state_of :: "outcome \<Rightarrow> widget" where
  "state_of (Returned w) = w"
| "state_of (Thrown e w) = w"

record params =
  param_min :: jsnum
  param_max :: jsnum
  param_axis :: "(string list \<times> string list) option"
  param_data :: "jsnum list list option"
  param_onChange :: "(change_args \<Rightarrow> cb_result) option"

section \<open>Utilities\<close>

definition u_getIndexFromCoordinates :: "widget \<Rightarrow> int \<Rightarrow> int \<Rightarrow> int" where
  "u_getIndexFromCoordinates w x y = (y * int (mX w)) + x"

definition u_convertValueForMatrix :: "widget \<Rightarrow> jsnum \<Rightarrow> jsnum" where
  "u_convertValueForMatrix w v = js_add (js_mul v (js_sub (maxZ w) (minZ w))) (minZ w)"

definition u_convertValueFromMatrix :: "widget \<Rightarrow> jsnum \<Rightarrow> jsnum" where
  "u_convertValueFromMatrix w v = js_div (js_sub v (minZ w)) (js_sub (maxZ w) (minZ w))"

text \<open>
  \<open>this.matrix[y][x]\<close>: \<open>None\<close> stands for \<open>undefined\<close>, which is what an index outside
  an array gives. Reading \<open>[x]\<close> of an undefined row, or a field of an undefined cell,
  raises the \<open>TypeError\<close>; the callers below say so.
\<close>

definition cell_at :: "cell list list \<Rightarrow> int \<Rightarrow> int \<Rightarrow> cell option" where
  "cell_at m x y =
     (if 0 \<le> y \<and> y < int (length m)
      then (let row = m ! nat y
            in if 0 \<le> x \<and> x < int (length row) then Some (row ! nat x) else None)
      else None)"

definition put_cell :: "cell list list \<Rightarrow> int \<Rightarrow> int \<Rightarrow> cell \<Rightarrow> cell list list" where
  "put_cell m x y c = m[nat y := (m ! nat y)[nat x := c]]"

definition hue :: "jsnum \<Rightarrow> jsnum" where
  "hue v = js_sub (Fin 128) (js_mul v (Fin 128))"

definition recolor :: "cell \<Rightarrow> cell" where
  "recolor c = c\<lparr>cell_color := HSL (hue (cell_value c)) 100 50,
                 cell_fadedColor := Some (HSL (hue (cell_value c)) 75 75)\<rparr>"

definition u_setMatrixValueColor :: "widget \<Rightarrow> int \<Rightarrow> int \<Rightarrow> widget" where
  "u_setMatrixValueColor w x y =
     (case cell_at (matrix w) x y of
        None \<Rightarrow> w
      | Some c \<Rightarrow> w\<lparr>matrix := put_cell (matrix w) x y (recolor c)\<rparr>)"

text \<open>
  The two tests \<open>if (v < 0) v = 0; if (v > 1) v = 1;\<close> that \<open>_initMatrix\<close> and
  \<open>_setValue\<close> both apply to the value they have just stored.
\<close>

definition clamp01 :: "jsnum \<Rightarrow> jsnum" where
  "clamp01 v =
     (let v1 = (if js_lt v (Fin 0) then Fin 0 else v)
      in if js_gt v1 (Fin 1) then Fin 1 else v1)"

text \<open>\<open>Math.round(v * 100000) / 100000\<close>.\<close>

definition round5 :: "jsnum \<Rightarrow> jsnum" where
  "round5 v = js_div (Math_round (js_mul v (Fin 100000))) (Fin 100000)"

section \<open>The matrix\<close>

text \<open>
  \<open>initialData[y][x]\<close> guarded by the three \<open>!= null\<close> tests of \<open>_initMatrix\<close>:
  \<open>None\<close> when the data, the row or the entry is missing.
\<close>

definition data_at :: "jsnum list list option \<Rightarrow> nat \<Rightarrow> nat \<Rightarrow> jsnum option" where
  "data_at d x y =
     (case d of
        None \<Rightarrow> None
      | Some rows \<Rightarrow>
          if y < length rows
          then (let r = rows ! y in if x < length r then Some (r ! x) else None)
          else None)"

text \<open>
  The body of the inner loop of \<open>_initMatrix\<close>: the new cell object, the two clamping
  tests, and \<open>_setMatrixValueColor(x, y)\<close>, whose guard holds for the cell just stored.
\<close>

definition init_cell :: "widget \<Rightarrow> jsnum list list option \<Rightarrow> nat \<Rightarrow> nat \<Rightarrow> cell" where
  "init_cell w d x y =
     recolor \<lparr>cell_value =
                 clamp01 (case data_at d x y of
                            Some e \<Rightarrow> u_convertValueFromMatrix w e
                          | None \<Rightarrow> Fin 0),
              cell_color = HSL (Fin 0) 100 50,
              cell_fadedColor = None\<rparr>"

definition u_initMatrix :: "widget \<Rightarrow> jsnum list list option \<Rightarrow> widget" where
  "u_initMatrix w d =
     w\<lparr>matrix := map (\<lambda>y. map (\<lambda>x. init_cell w d x y) [0..<mX w]) [0..<mY w]\<rparr>"

text \<open>
  The part of \<open>_computeChart\<close> that copies the grid into the mesh: the elevation of
  vertex \<open>y * mX + x\<close> and the height of pivot \<open>[y][x]\<close> are the value of cell
  \<open>[y][x]\<close>. It runs only from \<open>setData\<close>, on the matrix \<open>_initMatrix\<close> has just built.
\<close>

definition u_computeChart :: "widget \<Rightarrow> widget" where
  "u_computeChart w =
     w\<lparr>vertices :=
         Some (concat (map (\<lambda>y. map (\<lambda>x. cell_value (matrix w ! y ! x)) [0..<mX w])
                        [0..<mY w])),
       vertexPivots :=
         Some (map (\<lambda>y. map (\<lambda>x. cell_value (matrix w ! y ! x)) [0..<mX w])
                 [0..<mY w])\<rparr>"

definition setData :: "widget \<Rightarrow> jsnum list list option \<Rightarrow> outcome" where
  "setData w d = Returned (u_computeChart (u_initMatrix w d))"

text \<open>
  The grid that \<open>_setValue\<close> builds for the callback: row \<open>y\<close>, column \<open>x\<close> is the
  value of cell \<open>[y][x]\<close> taken back to the external range and rounded to five
  decimals. \<open>None\<close> when a cell read in the loops is undefined (the \<open>TypeError\<close>).
\<close>

definition external_cell :: "widget \<Rightarrow> nat \<Rightarrow> nat \<Rightarrow> jsnum option" where
  "external_cell w x y =
     map_option (\<lambda>c. round5 (u_convertValueForMatrix w (cell_value c)))
       (cell_at (matrix w) (int x) (int y))"

definition toExternalGrid :: "widget \<Rightarrow> jsnum list list option" where
  "toExternalGrid w =
     those (map (\<lambda>y. those (map (\<lambda>x. external_cell w x y) [0..<mX w])) [0..<mY w])"

text \<open>
  The two guarded mesh updates of \<open>_setValue\<close>. \<open>None\<close> is the \<open>TypeError\<close> of an
  undefined pivot or vertex.
\<close>

definition move_pivot :: "widget \<Rightarrow> int \<Rightarrow> int \<Rightarrow> jsnum \<Rightarrow> widget option" where
  "move_pivot w x y v =
     (case vertexPivots w of
        None \<Rightarrow> Some w
      | Some pv \<Rightarrow>
          if 0 \<le> y \<and> y < int (length pv) \<and> 0 \<le> x \<and> x < int (length (pv ! nat y))
          then Some (w\<lparr>vertexPivots := Some (pv[nat y := (pv ! nat y)[nat x := v]])\<rparr>)
          else None)"

definition move_vertex :: "widget \<Rightarrow> int \<Rightarrow> int \<Rightarrow> jsnum \<Rightarrow> widget option" where
  "move_vertex w x y v =
     (case vertices w of
        None \<Rightarrow> Some w
      | Some vs \<Rightarrow>
          (let i = u_getIndexFromCoordinates w x y
           in if 0 \<le> i \<and> i < int (length vs)
              then Some (w\<lparr>vertices := Some (vs[nat i := v])\<rparr>)
              else None))"

text \<open>
  The body of the \<open>try\<close> block of \<open>_setValue\<close>. Its loops are written
  \<open>for (var y = 0; ...)\<close> and \<open>for (var x = 0; ...)\<close>: \<open>var\<close> is scoped to the function,
  so the loops count in the parameters \<open>x\<close> and \<open>y\<close> themselves, and when the callback
  is called \<open>y\<close> is \<open>mY\<close> and \<open>x\<close> is \<open>mX\<close> (\<open>x\<close> keeps its value only when the outer
  loop has no iteration). The third argument converts the parameter \<open>value\<close>, not the
  clamped value of the cell.
\<close>

definition notify ::
  "widget \<Rightarrow> (change_args \<Rightarrow> cb_result) \<Rightarrow> int \<Rightarrow> int \<Rightarrow> jsnum \<Rightarrow> outcome" where
  "notify w cb x y v =
     (case toExternalGrid w of
        None \<Rightarrow> Thrown TypeError w
      | Some grid \<Rightarrow>
          (let x' = (if mY w = 0 then x else int (mX w));
               y' = int (mY w);
               args = (x', y', round5 (u_convertValueForMatrix w v), grid);
               w' = w\<lparr>calls := calls w @ [args]\<rparr>
           in case cb args of
                Returns \<Rightarrow> Returned w'
              | Throws \<Rightarrow> Thrown CallbackError w'))"

text \<open>\<open>try { ... } catch (ex) { }\<close>: whatever the block throws is dropped.\<close>

fun catch_discard :: "outcome \<Rightarrow> outcome" where
  "catch_discard (Returned w) = Returned w"
| "catch_discard (Thrown e w) = Returned w"

definition u_setValue :: "widget \<Rightarrow> int \<Rightarrow> int \<Rightarrow> jsnum \<Rightarrow> outcome" where
  "u_setValue w x y v =
     (case cell_at (matrix w) x y of
        None \<Rightarrow> Thrown TypeError w
      | Some c \<Rightarrow>
          (let w1 = w\<lparr>matrix := put_cell (matrix w) x y (c\<lparr>cell_value := clamp01 v\<rparr>)\<rparr>;
               w2 = u_setMatrixValueColor w1 x y
           in case move_pivot w2 x y (clamp01 v) of
                None \<Rightarrow> Thrown TypeError w2
              | Some w3 \<Rightarrow>
                  (case move_vertex w3 x y (clamp01 v) of
                     None \<Rightarrow> Thrown TypeError w3
                   | Some w4 \<Rightarrow>
                       (case onMatrixDataChange w4 of
                          None \<Rightarrow> Returned w4
                        | Some cb \<Rightarrow> catch_discard (notify w4 cb x y v)))))"

section \<open>The public operations\<close>

text \<open>
  \<open>setValue\<close> normalises the external value and calls \<open>_setValue\<close>; an exception of
  \<open>_setValue\<close> leaves \<open>setValue\<close> at once. The call of \<open>_updateVertexColors\<close> that
  follows changes only the triangle colours of the backend.
\<close>

definition setValue :: "widget \<Rightarrow> int \<Rightarrow> int \<Rightarrow> jsnum \<Rightarrow> outcome" where
  "setValue w x y v = u_setValue w x y (u_convertValueFromMatrix w v)"

text \<open>
  The constructor \<open>MatrixHeightMap(params)\<close>: the range, the axis names (the two
  default lists when \<open>params.axis\<close> is missing), the dimensions,
  \<open>setData(params.data)\<close>, and only then the callback. \<open>this.matrix = null\<close> is
  written as the empty matrix: both make \<open>this.matrix[y][x]\<close> raise, and \<open>setData\<close>
  replaces it before the constructor returns.
\<close>

definition MatrixHeightMap :: "params \<Rightarrow> outcome" where
  "MatrixHeightMap p =
     (let (xs, ys) =
            (case param_axis p of
               Some (ax, ay) \<Rightarrow> (ax, ay)
             | None \<Rightarrow> ([''A'', ''B'', ''C'', ''D'', ''E''], [''1'', ''2'', ''3'', ''4'', ''5'']));
          w0 = \<lparr>minZ = param_min p, maxZ = param_max p,
                XAxisNames = xs, YAxisNames = ys,
                mX = length xs, mY = length ys,
                matrix = [], vertexPivots = None, vertices = None,
                onMatrixDataChange = None, calls = []\<rparr>
      in case setData w0 (param_data p) of
           Thrown e w1 \<Rightarrow> Thrown e w1
         | Returned w1 \<Rightarrow> Returned (w1\<lparr>onMatrixDataChange := param_onChange p\<rparr>))"

section \<open>The tick values of the Z axis\<close>

text \<open>
  The loop of \<open>_makeZGridLine\<close>, \<open>n\<close> iterations from the running \<open>count\<close>, and the list
  \<open>axisValues\<close> it hands to \<open>_makeGridLine\<close>.
\<close>

fun z_ticks :: "nat \<Rightarrow> jsnum \<Rightarrow> jsnum \<Rightarrow> jsnum list" where
  "z_ticks 0 count increment = []"
| "z_ticks (Suc n) count increment = count # z_ticks n (js_sub count increment) increment"

definition u_makeZGridLine_axisValues :: "widget \<Rightarrow> jsnum list" where
  "u_makeZGridLine_axisValues w =
     (let resolution = 10;
          increment = Math_round (js_div (js_sub (maxZ w) (minZ w)) (Fin (of_nat resolution)))
      in z_ticks (resolution + 1) (maxZ w) increment)"

section \<open>Well-formed widgets\<close>

text \<open>
  What holds of every widget once its constructor has returned: the matrix and the
  pivots have \<open>mY\<close> rows of \<open>mX\<close> entries, and the mesh has one vertex for each cell.
\<close>

definition wf :: "widget \<Rightarrow> bool" where
  "wf w =
     (length (matrix w) = mY w \<and> list_all (\<lambda>row. length row = mX w) (matrix w) \<and>
      (case vertexPivots w of
         None \<Rightarrow> True
       | Some pv \<Rightarrow> length pv = mY w \<and> list_all (\<lambda>r. length r = mX w) pv) \<and>
      (case vertices w of
         None \<Rightarrow> True
       | Some vs \<Rightarrow> length vs = mX w * mY w))"

definition in_bounds :: "widget \<Rightarrow> int \<Rightarrow> int \<Rightarrow> bool" where
  "in_bounds w x y = (0 \<le> x \<and> x < int (mX w) \<and> 0 \<le> y \<and> y < int (mY w))"

section \<open>The effect of a change in closed form\<close>

text \<open>
  For reference in the statements below: \<open>stored w x y v\<close> is \<open>w\<close> with cell \<open>[y][x]\<close>
  holding the clamped \<open>v\<close> and its colours, and the pivot and the vertex of that cell
  moved to the clamped \<open>v\<close>; \<open>reported w v\<close> is the argument list \<open>_setValue\<close> passes to
  the callback in state \<open>w\<close>. Lemma \<open>u_setValue_eq\<close> derives both from \<open>u_setValue\<close>.
\<close>

definition stored :: "widget \<Rightarrow> int \<Rightarrow> int \<Rightarrow> jsnum \<Rightarrow> widget" where
  "stored w x y v =
     w\<lparr>matrix := put_cell (matrix w) x y
                    (recolor ((matrix w ! nat y ! nat x)\<lparr>cell_value := clamp01 v\<rparr>)),
       vertexPivots :=
         map_option (\<lambda>pv. pv[nat y := (pv ! nat y)[nat x := clamp01 v]]) (vertexPivots w),
       vertices :=
         map_option (\<lambda>vs. vs[nat (u_getIndexFromCoordinates w x y) := clamp01 v]) (vertices w)\<rparr>"

definition reported :: "widget \<Rightarrow> jsnum \<Rightarrow> change_args" where
  "reported w v =
     (int (mX w), int (mY w), round5 (u_convertValueForMatrix w v),
      map (\<lambda>y. map (\<lambda>x. round5 (u_convertValueForMatrix w (cell_value (matrix w ! y ! x))))
                 [0..<mX w]) [0..<mY w])"

section \<open>Predicates of the statements\<close>

text \<open>
  The rational that a finite number denotes, both zeros denoting 0; two finite numbers
  that differ by at most \<open>t\<close>.
\<close>

fun finite_val :: "jsnum \<Rightarrow> rat option" where
  "finite_val (Fin a) = Some a"
| "finite_val NZero = Some 0"
| "finite_val PInf = None"
| "finite_val NInf = None"
| "finite_val NaN = None"

definition near :: "rat \<Rightarrow> jsnum \<Rightarrow> jsnum \<Rightarrow> bool" where
  "near t p q =
     (case (finite_val p, finite_val q) of
        (Some a, Some b) \<Rightarrow> \<bar>a - b\<bar> \<le> t
      | _ \<Rightarrow> False)"

text \<open>
  A finite number of the closed interval from \<open>a\<close> to \<open>b\<close>.
\<close>

definition in_range :: "rat \<Rightarrow> rat \<Rightarrow> jsnum \<Rightarrow> bool" where
  "in_range a b x = (case finite_val x of Some e \<Rightarrow> a \<le> e \<and> e \<le> b | None \<Rightarrow> False)"

section \<open>Example configurations\<close>

text \<open>
  The widget of the scenarios: two columns \<open>A\<close>, \<open>B\<close>, two rows \<open>1\<close>, \<open>2\<close>, the range
  from 0 to 100, no initial data, and the callback \<open>cb\<close> (or none).
\<close>

definition example_params :: "(change_args \<Rightarrow> cb_result) option \<Rightarrow> params" where
  "example_params cb =
     \<lparr>param_min = Fin 0, param_max = Fin 100,
      param_axis = Some ([''A'', ''B''], [''1'', ''2'']),
      param_data = None, param_onChange = cb\<rparr>"

definition example_widget :: "(change_args \<Rightarrow> cb_result) option \<Rightarrow> widget" where
  "example_widget cb = state_of (MatrixHeightMap (example_params cb))"

definition zero_cell :: cell where
  "zero_cell = \<lparr>cell_value = Fin 0, cell_color = HSL (Fin 128) 100 50,
                cell_fadedColor = Some (HSL (Fin 128) 75 75)\<rparr>"

text \<open>The same widget with the degenerate range \<open>min = max = 0\<close> and no callback.\<close>

definition degenerate_params :: params where
  "degenerate_params =
     \<lparr>param_min = Fin 0, param_max = Fin 0,
      param_axis = Some ([''A'', ''B''], [''1'', ''2'']),
      param_data = None, param_onChange = None\<rparr>"

definition degenerate_widget :: widget where
  "degenerate_widget = state_of (MatrixHeightMap degenerate_params)"

text \<open>A configuration without the \<open>axis\<close> field, with the range of the usage notes.\<close>

definition default_params :: params where
  "default_params =
     \<lparr>param_min = Fin 0, param_max = Fin 1000, param_axis = None,
      param_data = None, param_onChange = None\<rparr>"

text \<open>
  The widget of the scenarios with the range from \<open>2\<^sup>5\<^sup>3\<close> to \<open>2\<^sup>5\<^sup>3 + 2\<close>, two
  neighbouring binary64 numbers, and with the range from \<open>+0\<close> to \<open>-0\<close>, which
  JavaScript compares as equal.
\<close>

definition coarse_params :: params where
  "coarse_params =
     \<lparr>param_min = Fin 9007199254740992, param_max = Fin 9007199254740994,
      param_axis = Some ([''A'', ''B''], [''1'', ''2'']),
      param_data = None, param_onChange = None\<rparr>"

definition signed_zero_params :: params where
  "signed_zero_params =
     \<lparr>param_min = Fin 0, param_max = NZero,
      param_axis = Some ([''A'', ''B''], [''1'', ''2'']),
      param_data = None, param_onChange = None\<rparr>"

text \<open>
  The widget of the scenarios with the range from 1000000 to 1000001, a range that is
  narrow beside its bounds, but not beyond what binary64 resolves to five decimals.
\<close>

definition offset_params :: params where
  "offset_params =
     \<lparr>param_min = Fin 1000000, param_max = Fin 1000001,
      param_axis = Some ([''A'', ''B''], [''1'', ''2'']),
      param_data = None, param_onChange = None\<rparr>"

definition offset_widget :: widget where
  "offset_widget = state_of (MatrixHeightMap offset_params)"

section \<open>Auxiliary facts\<close>

subsection \<open>Powers of two\<close>

lemma pow2_powi: "pow2 e = 2 powi e"
  by (simp add: pow2_def power_int_def field_simps)

lemma pow2_pos [simp]: "0 < pow2 e"
  by (simp add: pow2_powi)

lemma pow2_nonneg [simp]: "0 \<le> pow2 e"
  using pow2_pos [of e] by (rule less_imp_le)

lemma pow2_nonzero [simp]: "pow2 e \<noteq> 0"
  using pow2_pos [of e] by (simp only: less_le) simp

lemma pow2_add: "pow2 (a + b) = pow2 a * pow2 b"
  by (simp add: pow2_powi power_int_add)

lemma pow2_diff: "pow2 (a - b) = pow2 a / pow2 b"
  by (simp add: pow2_powi power_int_diff)

lemma pow2_less_iff: "pow2 a < pow2 b \<longleftrightarrow> a < b"
proof
  assume "a < b"
  then show "pow2 a < pow2 b"
    using power_int_strict_increasing [of a b "2 :: rat"] by (simp add: pow2_powi)
next
  assume l: "pow2 a < pow2 b"
  show "a < b"
  proof (rule ccontr)
    assume "\<not> a < b"
    then have "b \<le> a" by simp
    then have "pow2 b \<le> pow2 a"
      using power_int_increasing [of b a "2 :: rat"] by (simp add: pow2_powi)
    then show False using l by simp
  qed
qed

lemma pow2_le_iff: "pow2 a \<le> pow2 b \<longleftrightarrow> a \<le> b"
  using pow2_less_iff [of b a] by (simp add: not_less [symmetric])

lemma pow2_nat: "0 \<le> e \<Longrightarrow> pow2 e = 2 ^ nat e"
  by (simp add: pow2_def)

lemma pow2_of_int: "0 \<le> e \<Longrightarrow> pow2 e = of_int (2 ^ nat e)"
  by (simp add: pow2_def)

lemma ilog2_le:
  assumes "0 < q"
  shows "pow2 (ilog2 q) \<le> q"
proof -
  obtain n d where nd: "quotient_of q = (n, d)" by (cases "quotient_of q")
  have d: "0 < d" using nd by (rule quotient_of_denom_pos)
  have q: "q = of_int n / of_int d" using nd by (rule quotient_of_div)
  have n: "0 < n" using assms d q by (simp add: zero_less_divide_iff)
  let ?k = "bitlen n - bitlen d"
  show ?thesis
  proof (cases "pow2 ?k \<le> q")
    case True
    then show ?thesis using nd by (simp add: ilog2_def)
  next
    case False
    have bn: "2 ^ nat (bitlen n - 1) \<le> n" and bd: "d < 2 ^ nat (bitlen d)"
      using bitlen_bounds [OF n] bitlen_bounds [OF d] by simp_all
    have pn: "0 < bitlen n"
      using n bitlen_eq_zero_iff [of n] bitlen_nonneg [of n] by simp
    have pd: "0 \<le> bitlen d" by (rule bitlen_nonneg)
    have 1: "pow2 (bitlen n - 1) \<le> of_int n"
      using bn pn by (simp add: pow2_of_int)
    have 2: "of_int d < pow2 (bitlen d)"
      using bd pd by (simp add: pow2_of_int)
    have "pow2 (?k - 1) = pow2 (bitlen n - 1) / pow2 (bitlen d)"
      using pow2_diff [of "bitlen n - 1" "bitlen d"] by (simp add: algebra_simps)
    also have "\<dots> \<le> of_int n / pow2 (bitlen d)"
      using 1 by (intro divide_right_mono) simp_all
    also have "\<dots> \<le> of_int n / of_int d"
      using 2 n d by (intro divide_left_mono) simp_all
    finally show ?thesis using False nd q by (simp add: ilog2_def)
  qed
qed

subsection \<open>Numbers that rounding leaves as they are\<close>

lemma rhe_of_int [simp]: "rhe (of_int z) = z"
  by (simp add: rhe_def)

lemma rhe_ge_floor: "\<lfloor>x\<rfloor> \<le> rhe x"
  by (simp add: rhe_def Let_def)

lemma ulp_exp_ge: "- 1074 \<le> ulp_exp q"
  by (simp add: ulp_exp_def)

lemma round_pos_exact:
  assumes "0 < m" "m < 2 ^ 53" "- 1074 \<le> e" "e \<le> 971"
  shows "round_pos (of_int m * pow2 e) = Fin (of_int m * pow2 e)"
proof -
  let ?q = "of_int m * pow2 e :: rat"
  let ?E = "ulp_exp ?q"
  have q: "0 < ?q" using assms(1) by simp
  have "(of_int m :: rat) < of_int (2 ^ 53)" using assms(2) by (simp only: of_int_less_iff)
  then have "(of_int m :: rat) < pow2 53" by (simp add: pow2_def)
  then have "?q < pow2 53 * pow2 e" by (simp add: mult_strict_right_mono)
  then have up: "?q < pow2 (e + 53)" by (simp add: pow2_add mult.commute)
  have "pow2 (ilog2 ?q) < pow2 (e + 53)"
    using ilog2_le [OF q] up by (rule le_less_trans)
  then have "ilog2 ?q < e + 53" by (simp only: pow2_less_iff)
  then have E: "?E \<le> e" using assms(3) by (simp add: ulp_exp_def)
  define M where "M = m * 2 ^ nat (e - ?E)"
  have "pow2 e = pow2 (e - ?E) * pow2 ?E"
    using pow2_add [of "e - ?E" ?E] by simp
  also have "pow2 (e - ?E) = of_int (2 ^ nat (e - ?E))"
    using E by (simp add: pow2_of_int)
  finally have pe: "pow2 e = of_int (2 ^ nat (e - ?E)) * pow2 ?E" .
  have x: "?q / pow2 ?E = of_int M"
    by (subst pe) (simp add: M_def)
  have v: "of_int M * pow2 ?E = ?q"
    by (subst (2) pe) (simp add: M_def)
  have "\<not> 971 < ?E" using E assms(4) by simp
  moreover have "\<not> (?E = 971 \<and> 9007199254740992 \<le> M)"
  proof
    assume a: "?E = 971 \<and> 9007199254740992 \<le> M"
    then have "e = 971" using E assms(4) by simp
    then have "M = m" using a by (simp add: M_def)
    then show False using a assms(2) by simp
  qed
  ultimately show ?thesis
    unfolding round_pos_def Let_def x rhe_of_int v by simp
qed

lemma round64_exact:
  assumes "m \<noteq> 0" "\<bar>m\<bar> < 2 ^ 53" "- 1074 \<le> e" "e \<le> 971"
  shows "round64 (of_int m * pow2 e) = Fin (of_int m * pow2 e)"
proof (cases "0 < m")
  case True
  then have "0 < (of_int m * pow2 e :: rat)" by simp
  then show ?thesis
    using round_pos_exact [OF True _ assms(3,4)] assms(2) by (simp add: round64_def)
next
  case False
  then have n: "0 < - m" using assms(1) by simp
  have lt: "- m < 2 ^ 53" using assms(2) by simp
  have neg: "(of_int m * pow2 e :: rat) < 0" using n by (simp add: mult_less_0_iff)
  have "round_pos (- (of_int m * pow2 e)) = Fin (- (of_int m * pow2 e))"
    using round_pos_exact [OF n lt assms(3,4)] by simp
  then show ?thesis using neg by (simp add: round64_def)
qed

lemma round64_int:
  assumes "n \<noteq> 0" "\<bar>n\<bar> < 2 ^ 53"
  shows "round64 (of_int n) = Fin (of_int n)"
  using round64_exact [OF assms, of 0] by (simp add: pow2_def)

lemma round64_numeral [simp]:
  "numeral k < (9007199254740992 :: int) \<Longrightarrow> round64 (numeral k) = Fin (numeral k)"
  using round64_int [of "numeral k"] by simp

lemma round64_neg_numeral [simp]:
  "numeral k < (9007199254740992 :: int) \<Longrightarrow> round64 (- numeral k) = Fin (- numeral k)"
  using round64_int [of "- numeral k"] by simp

lemma round64_one [simp]: "round64 1 = Fin 1"
  using round64_int [of 1] by simp

lemma round64_dyadic:
  assumes "n \<noteq> 0" "\<bar>n\<bar> < 2 ^ 53" "k \<le> 1074"
  shows "round64 (of_int n / 2 ^ k) = Fin (of_int n / 2 ^ k)"
proof -
  have "pow2 (- int k) = 1 / 2 ^ k" by (auto simp add: pow2_def)
  then show ?thesis
    using round64_exact [OF assms(1,2), of "- int k"] assms(3) by simp
qed

lemma half [simp]: "round64 (1 / 2) = Fin (1 / 2)"
  using round64_dyadic [of 1 1] by simp

lemma quarter [simp]: "round64 (1 / 4) = Fin (1 / 4)"
  using round64_dyadic [of 1 2] by simp

lemma three_halves [simp]: "round64 (3 / 2) = Fin (3 / 2)"
  using round64_dyadic [of 3 1] by simp

lemma tenth: "round64 (1 / 10) = Fin (3602879701896397 / 36028797018963968)"
  by code_simp

lemma fifth: "round64 (1 / 5) = Fin (3602879701896397 / 18014398509481984)"
  by code_simp

lemma three_tenths: "round64 (3 / 10) = Fin (5404319552844595 / 18014398509481984)"
  by code_simp

lemma big_half: "round64 (18014398509481985 / 2) = Fin 9007199254740992"
  by code_simp

lemma is_double_numeral [simp]:
  "numeral k < (9007199254740992 :: int) \<Longrightarrow> is_double (numeral k)"
  by (simp add: is_double_def)

lemma is_double_0 [simp]: "is_double 0"
  by (simp add: is_double_def)

lemma is_double_1 [simp]: "is_double 1"
  by (simp add: is_double_def)

lemma round64_minus_one [simp]: "round64 (- 1) = Fin (- 1)"
  using round64_int [of "- 1"] by simp

subsection \<open>The sign of a rounded difference\<close>

lemma round_pos_cases: "round_pos q = PInf \<or> (\<exists>v. round_pos q = Fin v)"
  by (simp add: round_pos_def Let_def)

lemma round64_not_NaN [simp]: "round64 q \<noteq> NaN"
  using round_pos_cases [of q] round_pos_cases [of "- q"]
  by (auto simp add: round64_def split: if_splits)

lemma round_pos_positive:
  assumes "pow2 (- 1074) \<le> q"
  shows "round_pos q = PInf \<or> (\<exists>v. 0 < v \<and> round_pos q = Fin v)"
proof -
  let ?E = "ulp_exp q"
  have q: "0 < q" using assms pow2_pos [of "- 1074"] by (rule less_le_trans [rotated])
  have "pow2 ?E \<le> q"
  proof (cases "ilog2 q - 52 \<le> - 1074")
    case True
    then have "?E = - 1074" by (simp add: ulp_exp_def)
    then show ?thesis using assms by simp
  next
    case False
    then have "?E = ilog2 q - 52" by (simp add: ulp_exp_def)
    then have "pow2 ?E \<le> pow2 (ilog2 q)" by (simp add: pow2_le_iff)
    then show ?thesis using ilog2_le [OF q] by (rule order_trans)
  qed
  then have "1 \<le> q / pow2 ?E" by (simp add: le_divide_eq)
  then have "1 \<le> \<lfloor>q / pow2 ?E\<rfloor>" by (simp add: le_floor_iff)
  then have "1 \<le> rhe (q / pow2 ?E)" using rhe_ge_floor [of "q / pow2 ?E"] by (rule order_trans)
  then have "0 < (of_int (rhe (q / pow2 ?E)) * pow2 ?E :: rat)" by simp
  then show ?thesis by (auto simp add: round_pos_def Let_def)
qed

lemma is_double_grid:
  assumes "is_double q"
  shows "\<exists>z::int. q = of_int z * pow2 (- 1074)"
proof -
  have grid: "\<exists>z::int. p = of_int z * pow2 (- 1074)" if "round_pos p = Fin p" for p
  proof -
    let ?E = "ulp_exp p"
    define m where "m = rhe (p / pow2 ?E)"
    have p: "p = of_int m * pow2 ?E"
      using that by (simp add: round_pos_def Let_def m_def split: if_splits)
    have "pow2 ?E = pow2 (?E + 1074) * pow2 (- 1074)"
      using pow2_add [of "?E + 1074" "- 1074"] by simp
    also have "pow2 (?E + 1074) = of_int (2 ^ nat (?E + 1074))"
      using ulp_exp_ge [of p] by (simp add: pow2_of_int)
    finally have "of_int m * pow2 ?E = of_int (m * 2 ^ nat (?E + 1074)) * pow2 (- 1074)"
      by simp
    then have "p = of_int (m * 2 ^ nat (?E + 1074)) * pow2 (- 1074)"
      using p by (rule trans [rotated])
    then show ?thesis by blast
  qed
  show ?thesis
  proof (cases "q = 0")
    case True
    then show ?thesis by (intro exI [of _ 0]) simp
  next
    case False
    then have r: "round64 q = Fin q" using assms by (simp add: is_double_def)
    show ?thesis
    proof (cases "0 < q")
      case True
      then show ?thesis using r grid [of q] by (simp add: round64_def)
    next
      case neg: False
      then have "js_neg (round_pos (- q)) = Fin q" using r False by (simp add: round64_def)
      then have "round_pos (- q) = Fin (- q)"
        using False by (cases "round_pos (- q)") (auto split: if_splits)
      then obtain z :: int where "- q = of_int z * pow2 (- 1074)" using grid [of "- q"] by blast
      then have "q = of_int (- z) * pow2 (- 1074)" by simp
      then show ?thesis by blast
    qed
  qed
qed

lemma double_gap:
  assumes "is_double e" "is_double a" "a < e"
  shows "pow2 (- 1074) \<le> e - a"
proof -
  obtain ze za :: int where z: "e = of_int ze * pow2 (- 1074)" "a = of_int za * pow2 (- 1074)"
    using is_double_grid [OF assms(1)] is_double_grid [OF assms(2)] by blast
  have "of_int za * pow2 (- 1074) < of_int ze * pow2 (- 1074)" using assms(3) z by simp
  then have "(of_int za :: rat) < of_int ze" by (simp add: mult_less_cancel_right)
  then have "za + 1 \<le> ze" by simp
  then have "(of_int (za + 1) :: rat) \<le> of_int ze" by (simp only: of_int_le_iff)
  then have "1 \<le> (of_int ze - of_int za :: rat)" by simp
  then have "1 * pow2 (- 1074) \<le> (of_int ze - of_int za) * pow2 (- 1074)"
    by (intro mult_right_mono) simp_all
  then show ?thesis using z by (simp add: algebra_simps)
qed

lemma sub_doubles_pos:
  assumes "is_double e" "is_double a" "a < e"
  shows "round64 (e - a) = PInf \<or> (\<exists>v. 0 < v \<and> round64 (e - a) = Fin v)"
  using round_pos_positive [OF double_gap [OF assms]] assms(3) by (simp add: round64_def)

lemma sub_doubles_neg:
  assumes "is_double e" "is_double a" "e < a"
  shows "round64 (e - a) = NInf \<or> (\<exists>v. v < 0 \<and> round64 (e - a) = Fin v)"
proof -
  have "round_pos (a - e) = PInf \<or> (\<exists>v. 0 < v \<and> round_pos (a - e) = Fin v)"
    using round_pos_positive [OF double_gap [OF assms(2,1,3)]] .
  then show ?thesis using assms(3) by (auto simp add: round64_def)
qed

lemma sub_sign_pos:
  assumes "finite_val x = Some e" "finite_val y = Some a" "is_double e" "is_double a" "a < e"
  shows "js_sub x y = PInf \<or> (\<exists>v. 0 < v \<and> js_sub x y = Fin v)"
proof -
  have r: "round64 (e - a) = PInf \<or> (\<exists>v. 0 < v \<and> round64 (e - a) = Fin v)"
    using sub_doubles_pos [OF assms(3,4,5)] .
  show ?thesis
  proof (cases x)
    case (Fin e')
    then have x: "x = Fin e" using assms(1) by simp
    show ?thesis
    proof (cases y)
      case (Fin a')
      then have y: "y = Fin a" using assms(2) by simp
      show ?thesis using r assms(5) by (simp add: x y js_sub_def)
    next
      case NZero
      then have "a = 0" using assms(2) by simp
      then show ?thesis using r assms(5) by (simp add: x NZero js_sub_def)
    qed (use assms(2) in simp_all)
  next
    case NZero
    then have e: "e = 0" using assms(1) by simp
    show ?thesis
    proof (cases y)
      case (Fin a')
      then have y: "y = Fin a" using assms(2) by simp
      show ?thesis using assms(5) e by (simp add: NZero y js_sub_def)
    next
      case z: NZero
      then have "a = 0" using assms(2) by simp
      then show ?thesis using assms(5) e by simp
    qed (use assms(2) in simp_all)
  qed (use assms(1) in simp_all)
qed

lemma sub_sign_neg:
  assumes "finite_val x = Some e" "finite_val y = Some a" "is_double e" "is_double a" "e < a"
  shows "js_sub x y = NInf \<or> (\<exists>v. v < 0 \<and> js_sub x y = Fin v)"
proof -
  have r: "round64 (e - a) = NInf \<or> (\<exists>v. v < 0 \<and> round64 (e - a) = Fin v)"
    using sub_doubles_neg [OF assms(3,4,5)] .
  show ?thesis
  proof (cases x)
    case (Fin e')
    then have x: "x = Fin e" using assms(1) by simp
    show ?thesis
    proof (cases y)
      case (Fin a')
      then have y: "y = Fin a" using assms(2) by simp
      show ?thesis using r assms(5) by (simp add: x y js_sub_def)
    next
      case NZero
      then have "a = 0" using assms(2) by simp
      then show ?thesis using r assms(5) by (simp add: x NZero js_sub_def)
    qed (use assms(2) in simp_all)
  next
    case NZero
    then have e: "e = 0" using assms(1) by simp
    show ?thesis
    proof (cases y)
      case (Fin a')
      then have y: "y = Fin a" using assms(2) by simp
      show ?thesis using assms(5) e by (simp add: NZero y js_sub_def)
    next
      case z: NZero
      then have "a = 0" using assms(2) by simp
      then show ?thesis using assms(5) e by simp
    qed (use assms(2) in simp_all)
  qed (use assms(1) in simp_all)
qed

lemma sub_sign_zero:
  assumes "finite_val x = Some a" "finite_val y = Some a"
  shows "js_sub x y = (if x = NZero \<and> y = Fin 0 then NZero else Fin 0)"
  using assms by (cases x; cases y) (simp_all add: js_sub_def)

lemma div_by_zero:
  assumes "z = Fin 0 \<or> z = NZero"
  shows "js_div (Fin 0) z = NaN" "js_div NZero z = NaN"
    "js_div PInf z = (if z = NZero then NInf else PInf)"
    "js_div NInf z = (if z = NZero then PInf else NInf)"
    "0 < v \<Longrightarrow> js_div (Fin v) z = (if z = NZero then NInf else PInf)"
    "v < 0 \<Longrightarrow> js_div (Fin v) z = (if z = NZero then PInf else NInf)"
  using assms by auto

subsection \<open>The error of one operation\<close>

text \<open>
  Rounding moves a number of size at most \<open>2\<^sup>1\<^sup>0\<^sup>0\<^sup>0\<close> by at most \<open>err_bound\<close> of it, and
  does not overflow. So each of the four operations, on finite operands whose exact
  result has that size, returns a finite number within \<open>err_bound\<close> of the exact
  result; \<open>Math.round\<close> moves a number by at most one half, and the clamp to the
  unit interval moves it no further from a number of the interval.
\<close>

lemma rhe_err: "\<bar>of_int (rhe x) - x\<bar> \<le> 1 / 2"
proof -
  have "of_int \<lfloor>x\<rfloor> \<le> x" "x < of_int \<lfloor>x\<rfloor> + 1"
    using floor_correct [of x] by simp_all
  then show ?thesis by (auto simp add: rhe_def Let_def abs_le_iff)
qed

lemma ilog2_bound:
  assumes "0 < q" "q \<le> pow2 k"
  shows "ilog2 q \<le> k"
proof -
  have "pow2 (ilog2 q) \<le> pow2 k" using ilog2_le [OF assms(1)] assms(2) by (rule order_trans)
  then show ?thesis by (simp only: pow2_le_iff)
qed

lemma pow2_half: "pow2 (e - 1) = pow2 e / 2"
  using pow2_diff [of e 1] by (simp add: pow2_def)

lemma round_pos_err:
  assumes "0 < q" "q \<le> pow2 1000"
  shows "\<exists>f. round_pos q = Fin f \<and> 0 \<le> f \<and> \<bar>f - q\<bar> \<le> q / 2 ^ 53 + pow2 (- 1075)"
proof -
  let ?E = "ulp_exp q"
  define m where "m = rhe (q / pow2 ?E)"
  have il: "ilog2 q \<le> 1000" using ilog2_bound [OF assms] .
  then have E: "?E \<le> 948" by (simp add: ulp_exp_def)
  then have val: "round_pos q = Fin (of_int m * pow2 ?E)"
    by (simp add: round_pos_def Let_def m_def)
  have "0 \<le> q / pow2 ?E" using assms(1) by simp
  then have "0 \<le> \<lfloor>q / pow2 ?E\<rfloor>" by simp
  then have m0: "0 \<le> m" unfolding m_def using rhe_ge_floor [of "q / pow2 ?E"] by (rule order_trans)
  have "\<bar>of_int m - q / pow2 ?E\<bar> \<le> 1 / 2" unfolding m_def by (rule rhe_err)
  then have "\<bar>of_int m - q / pow2 ?E\<bar> * pow2 ?E \<le> 1 / 2 * pow2 ?E"
    by (intro mult_right_mono) simp_all
  moreover have "\<bar>of_int m - q / pow2 ?E\<bar> * pow2 ?E = \<bar>of_int m * pow2 ?E - q\<bar>"
  proof -
    have "\<bar>of_int m - q / pow2 ?E\<bar> * pow2 ?E = \<bar>(of_int m - q / pow2 ?E) * pow2 ?E\<bar>"
      by (simp add: abs_mult)
    also have "(of_int m - q / pow2 ?E) * pow2 ?E = of_int m * pow2 ?E - q"
      by (simp add: algebra_simps)
    finally show ?thesis .
  qed
  ultimately have err: "\<bar>of_int m * pow2 ?E - q\<bar> \<le> pow2 ?E / 2" by simp
  have "pow2 ?E / 2 \<le> q / 2 ^ 53 + pow2 (- 1075)"
  proof (cases "ilog2 q - 52 \<le> - 1074")
    case True
    then have "?E = - 1074" by (simp add: ulp_exp_def)
    then have "pow2 ?E / 2 = pow2 (- 1075)" using pow2_half [of "- 1074"] by simp
    then show ?thesis using assms(1) by simp
  next
    case False
    then have "?E = ilog2 q - 52" by (simp add: ulp_exp_def)
    then have "pow2 ?E = pow2 (ilog2 q) / pow2 52" by (simp add: pow2_diff)
    also have "\<dots> \<le> q / pow2 52" using ilog2_le [OF assms(1)] by (intro divide_right_mono) simp_all
    finally have "pow2 ?E / 2 \<le> q / pow2 52 / 2" by simp
    also have "\<dots> = q / 2 ^ 53" by (simp add: pow2_def)
    finally show ?thesis using pow2_nonneg [of "- 1075"] by linarith
  qed
  then have "\<bar>of_int m * pow2 ?E - q\<bar> \<le> q / 2 ^ 53 + pow2 (- 1075)"
    using err by (rule order_trans [rotated])
  moreover have "0 \<le> (of_int m * pow2 ?E :: rat)" using m0 by simp
  ultimately show ?thesis using val by blast
qed

lemma round64_err:
  assumes "\<bar>q\<bar> \<le> pow2 1000"
  shows "\<exists>f. finite_val (round64 q) = Some f \<and> \<bar>f - q\<bar> \<le> \<bar>q\<bar> / 2 ^ 53 + pow2 (- 1075)"
proof -
  consider "q = 0" | "0 < q" | "q < 0" by linarith
  then show ?thesis
  proof cases
    case 1
    then show ?thesis by (simp add: round64_def)
  next
    case 2
    then obtain f where "round_pos q = Fin f" "\<bar>f - q\<bar> \<le> q / 2 ^ 53 + pow2 (- 1075)"
      using round_pos_err [of q] assms by auto
    then show ?thesis using 2 by (simp add: round64_def)
  next
    case 3
    then obtain f where f: "round_pos (- q) = Fin f"
      "\<bar>f - (- q)\<bar> \<le> (- q) / 2 ^ 53 + pow2 (- 1075)"
      using round_pos_err [of "- q"] assms by auto
    have "finite_val (js_neg (Fin f)) = Some (- f)" by simp
    moreover have "\<bar>- f - q\<bar> = \<bar>f - (- q)\<bar>" by simp
    ultimately show ?thesis using 3 f by (simp add: round64_def)
  qed
qed

lemma err_bound_nonneg [simp]: "0 \<le> err_bound q"
  by (simp add: err_bound_def)

lemma round64_near:
  assumes "\<bar>q\<bar> \<le> pow2 1000"
  shows "\<exists>f. finite_val (round64 q) = Some f \<and> \<bar>f - q\<bar> \<le> err_bound q"
  using round64_err [OF assms] by (simp add: err_bound_def)

lemma finite_val_neg: "finite_val x = Some p \<Longrightarrow> finite_val (js_neg x) = Some (- p)"
  by (cases x) simp_all

lemma js_add_err:
  assumes "finite_val x = Some p" "finite_val y = Some q" "\<bar>p + q\<bar> \<le> pow2 1000"
  shows "\<exists>f. finite_val (js_add x y) = Some f \<and> \<bar>f - (p + q)\<bar> \<le> err_bound (p + q)"
proof (cases x)
  case (Fin a)
  then have a: "a = p" using assms(1) by simp
  show ?thesis
  proof (cases y)
    case (Fin b)
    then have b: "b = q" using assms(2) by simp
    show ?thesis
    proof (cases "p + q = 0")
      case True
      then show ?thesis using \<open>x = Fin a\<close> Fin a b by simp
    next
      case False
      then show ?thesis using \<open>x = Fin a\<close> Fin a b round64_near [OF assms(3)] by simp
    qed
  next
    case NZero
    then have "q = 0" using assms(2) by simp
    then show ?thesis using \<open>x = Fin a\<close> NZero a by simp
  qed (use assms(2) in simp_all)
next
  case NZero
  then have p: "p = 0" using assms(1) by simp
  show ?thesis
  proof (cases y)
    case (Fin b)
    then have "b = q" using assms(2) by simp
    then show ?thesis using NZero Fin p by simp
  next
    case z: NZero
    then have "q = 0" using assms(2) by simp
    then show ?thesis using NZero z p by simp
  qed (use assms(2) in simp_all)
qed (use assms(1) in simp_all)

lemma js_sub_err:
  assumes "finite_val x = Some p" "finite_val y = Some q" "\<bar>p - q\<bar> \<le> pow2 1000"
  shows "\<exists>f. finite_val (js_sub x y) = Some f \<and> \<bar>f - (p - q)\<bar> \<le> err_bound (p - q)"
  using js_add_err [OF assms(1) finite_val_neg [OF assms(2)]] assms(3) by (simp add: js_sub_def)

lemma js_mul_err:
  assumes "finite_val x = Some p" "finite_val y = Some q" "\<bar>p * q\<bar> \<le> pow2 1000"
  shows "\<exists>f. finite_val (js_mul x y) = Some f \<and> \<bar>f - p * q\<bar> \<le> err_bound (p * q)"
proof (cases x)
  case (Fin a)
  then have a: "a = p" using assms(1) by simp
  show ?thesis
  proof (cases y)
    case (Fin b)
    then have b: "b = q" using assms(2) by simp
    show ?thesis
    proof (cases "p * q = 0")
      case True
      then show ?thesis using \<open>x = Fin a\<close> Fin a b by auto
    next
      case False
      then show ?thesis using \<open>x = Fin a\<close> Fin a b round64_near [OF assms(3)] by simp
    qed
  next
    case NZero
    then have "q = 0" using assms(2) by simp
    then show ?thesis using \<open>x = Fin a\<close> NZero a by simp
  qed (use assms(2) in simp_all)
next
  case NZero
  then have p: "p = 0" using assms(1) by simp
  show ?thesis
  proof (cases y)
    case (Fin b)
    then show ?thesis using NZero p by simp
  next
    case z: NZero
    then show ?thesis using NZero p by simp
  qed (use assms(2) in simp_all)
qed (use assms(1) in simp_all)

lemma js_div_err:
  assumes "finite_val x = Some p" "finite_val y = Some q" "q \<noteq> 0" "\<bar>p / q\<bar> \<le> pow2 1000"
  shows "\<exists>f. finite_val (js_div x y) = Some f \<and> \<bar>f - p / q\<bar> \<le> err_bound (p / q)"
proof (cases y)
  case (Fin b)
  then have b: "b = q" using assms(2) by simp
  show ?thesis
  proof (cases x)
    case (Fin a)
    then have a: "a = p" using assms(1) by simp
    show ?thesis
    proof (cases "p = 0")
      case True
      then show ?thesis using \<open>y = Fin b\<close> Fin a b assms(3) by simp
    next
      case False
      then show ?thesis using \<open>y = Fin b\<close> Fin a b assms(3) round64_near [OF assms(4)] by simp
    qed
  next
    case NZero
    then have "p = 0" using assms(1) by simp
    then show ?thesis using \<open>y = Fin b\<close> NZero b assms(3) by simp
  qed (use assms(1) in simp_all)
next
  case NZero
  then show ?thesis using assms(2,3) by simp
qed (use assms(2) in simp_all)

lemma clamp01_closer:
  assumes "finite_val x = Some p" "0 \<le> v" "v \<le> 1"
  shows "\<exists>c. finite_val (clamp01 x) = Some c \<and> 0 \<le> c \<and> c \<le> 1 \<and> \<bar>c - v\<bar> \<le> \<bar>p - v\<bar>"
proof (cases x)
  case (Fin a)
  then have "a = p" using assms(1) by simp
  then show ?thesis using Fin assms(2,3) by (auto simp add: clamp01_def js_gt_def)
next
  case NZero
  then have "p = 0" using assms(1) by simp
  then show ?thesis using NZero assms(2,3) by (simp add: clamp01_def js_gt_def)
qed (use assms(1) in simp_all)

subsection \<open>Lists and indices\<close>

lemma upt_2: "[0..<2] = [0, Suc 0]"
  by (simp add: upt_rec)

lemma those_map_Some:
  "(\<And>x. x \<in> set xs \<Longrightarrow> f x = Some (g x)) \<Longrightarrow> those (map f xs) = Some (map g xs)"
  by (induction xs) auto

lemma length_concat_rect:
  "length (concat (map (\<lambda>y. map (f y) [0..<n]) [0..<h])) = n * h"
  by (induction h) simp_all

lemma index_in_mesh:
  fixes x y :: int
  assumes "0 \<le> x" "x < int a" "0 \<le> y" "y < int b"
  shows "0 \<le> y * int a + x" and "y * int a + x < int (a * b)"
proof -
  show "0 \<le> y * int a + x" using assms by simp
  have "y + 1 \<le> int b" using assms by simp
  then have "(y + 1) * int a \<le> int b * int a"
    by (rule mult_right_mono) simp
  then have "y * int a + int a \<le> int a * int b"
    by (simp add: algebra_simps)
  then show "y * int a + x < int (a * b)" using assms by simp
qed

subsection \<open>Reading and writing cells\<close>

lemma cell_at_inside:
  assumes "wf w" "in_bounds w x y"
  shows "cell_at (matrix w) x y = Some (matrix w ! nat y ! nat x)"
proof -
  have "nat y < mY w" using assms(2) by (simp add: in_bounds_def nat_less_iff)
  then have "length (matrix w ! nat y) = mX w"
    using assms(1) by (simp add: wf_def list_all_length)
  then show ?thesis using assms by (simp add: cell_at_def in_bounds_def wf_def)
qed

lemma cell_at_outside:
  assumes "wf w" "\<not> in_bounds w x y"
  shows "cell_at (matrix w) x y = None"
proof (cases "0 \<le> y \<and> y < int (mY w)")
  case True
  then have "nat y < mY w" by (simp add: nat_less_iff)
  then have "length (matrix w ! nat y) = mX w"
    using assms(1) by (simp add: wf_def list_all_length)
  then show ?thesis using assms True by (auto simp add: cell_at_def in_bounds_def wf_def)
next
  case False
  then show ?thesis using assms by (auto simp add: cell_at_def wf_def)
qed

lemma put_cell_length: "length (put_cell m x y c) = length m"
  by (simp add: put_cell_def)

lemma put_cell_rows:
  assumes "list_all (\<lambda>row. length row = n) m"
  shows "list_all (\<lambda>row. length row = n) (put_cell m x y c)"
proof (cases "nat y < length m")
  case True
  then show ?thesis using assms
    by (auto simp add: put_cell_def list_all_length nth_list_update)
next
  case False
  then show ?thesis using assms by (simp add: put_cell_def list_update_beyond)
qed

lemma cell_at_put_cell:
  assumes "cell_at m x y = Some c0"
  shows "cell_at (put_cell m x y c) x y = Some c"
  using assms by (auto simp add: cell_at_def put_cell_def Let_def split: if_splits)

lemma put_cell_twice: "put_cell (put_cell m x y c) x y c' = put_cell m x y c'"
  by (cases "nat y < length m") (simp_all add: put_cell_def list_update_beyond)

subsection \<open>The grid for the callback\<close>

lemma toExternalGrid_rect:
  assumes "length (matrix w) = mY w" "list_all (\<lambda>row. length row = mX w) (matrix w)"
  shows "toExternalGrid w =
    Some (map (\<lambda>y. map (\<lambda>x. round5 (u_convertValueForMatrix w (cell_value (matrix w ! y ! x))))
                 [0..<mX w]) [0..<mY w])"
  unfolding toExternalGrid_def
proof (rule those_map_Some)
  fix y assume "y \<in> set [0..<mY w]"
  then have y: "y < mY w" by simp
  then have len: "length (matrix w ! y) = mX w"
    using assms by (simp add: list_all_length)
  show "those (map (\<lambda>x. external_cell w x y) [0..<mX w]) =
        Some (map (\<lambda>x. round5 (u_convertValueForMatrix w (cell_value (matrix w ! y ! x))))
                [0..<mX w])"
  proof (rule those_map_Some)
    fix x assume "x \<in> set [0..<mX w]"
    then show "external_cell w x y =
       Some (round5 (u_convertValueForMatrix w (cell_value (matrix w ! y ! x))))"
      using y len assms by (simp add: external_cell_def cell_at_def)
  qed
qed

lemma catch_notify:
  assumes "toExternalGrid w = Some g"
  shows "catch_discard (notify w cb x y v) =
     Returned (w\<lparr>calls := calls w @
        [(if mY w = 0 then x else int (mX w), int (mY w),
          round5 (u_convertValueForMatrix w v), g)]\<rparr>)"
  using assms
  by (cases "cb (if mY w = 0 then x else int (mX w), int (mY w),
          round5 (u_convertValueForMatrix w v), g)")
     (simp_all add: notify_def Let_def)

subsection \<open>The steps of \<open>_setValue\<close>\<close>

lemma recolor_step:
  assumes "wf w" "in_bounds w x y"
  shows "u_setMatrixValueColor
           (w\<lparr>matrix := put_cell (matrix w) x y
                ((matrix w ! nat y ! nat x)\<lparr>cell_value := u\<rparr>)\<rparr>) x y =
         w\<lparr>matrix := put_cell (matrix w) x y
                (recolor ((matrix w ! nat y ! nat x)\<lparr>cell_value := u\<rparr>))\<rparr>"
  using cell_at_put_cell [OF cell_at_inside [OF assms]]
  by (simp add: u_setMatrixValueColor_def put_cell_twice)

lemma move_pivot_step:
  assumes "wf w" "in_bounds w x y"
  shows "move_pivot (w\<lparr>matrix := m\<rparr>) x y u =
         Some (w\<lparr>matrix := m,
                 vertexPivots := map_option (\<lambda>pv. pv[nat y := (pv ! nat y)[nat x := u]])
                                   (vertexPivots w)\<rparr>)"
proof (cases "vertexPivots w")
  case None
  then show ?thesis by (simp add: move_pivot_def)
next
  case (Some pv)
  have y: "nat y < mY w" using assms(2) by (simp add: in_bounds_def nat_less_iff)
  have "length pv = mY w" "list_all (\<lambda>r. length r = mX w) pv"
    using assms(1) Some by (simp_all add: wf_def)
  then have "length (pv ! nat y) = mX w" using y by (simp add: list_all_length)
  then show ?thesis
    using Some assms(2) \<open>length pv = mY w\<close> by (simp add: move_pivot_def in_bounds_def)
qed

lemma move_vertex_step:
  assumes "wf w" "in_bounds w x y"
  shows "move_vertex (w\<lparr>matrix := m, vertexPivots := p\<rparr>) x y u =
         Some (w\<lparr>matrix := m, vertexPivots := p,
                 vertices := map_option (\<lambda>vs. vs[nat (u_getIndexFromCoordinates w x y) := u])
                               (vertices w)\<rparr>)"
proof (cases "vertices w")
  case None
  then show ?thesis by (simp add: move_vertex_def)
next
  case (Some vs)
  have len: "length vs = mX w * mY w" using assms(1) Some by (simp add: wf_def)
  have "0 \<le> y * int (mX w) + x" "y * int (mX w) + x < int (mX w * mY w)"
    using assms(2) index_in_mesh [of x "mX w" y "mY w"] by (simp_all add: in_bounds_def)
  then show ?thesis
    using Some len by (simp add: move_vertex_def u_getIndexFromCoordinates_def)
qed

lemma stored_fields:
  "mX (stored w x y v) = mX w" "mY (stored w x y v) = mY w"
  "minZ (stored w x y v) = minZ w" "maxZ (stored w x y v) = maxZ w"
  "XAxisNames (stored w x y v) = XAxisNames w" "YAxisNames (stored w x y v) = YAxisNames w"
  "onMatrixDataChange (stored w x y v) = onMatrixDataChange w"
  "calls (stored w x y v) = calls w"
  "matrix (stored w x y v) =
     put_cell (matrix w) x y (recolor ((matrix w ! nat y ! nat x)\<lparr>cell_value := clamp01 v\<rparr>))"
  by (simp_all add: stored_def)

lemma stored_wf:
  assumes "wf w"
  shows "wf (stored w x y v)"
proof -
  have m: "length (matrix (stored w x y v)) = mY w"
       "list_all (\<lambda>row. length row = mX w) (matrix (stored w x y v))"
    using assms by (simp_all add: stored_def put_cell_length put_cell_rows wf_def)
  have p: "case vertexPivots (stored w x y v) of None \<Rightarrow> True
           | Some pv \<Rightarrow> length pv = mY w \<and> list_all (\<lambda>r. length r = mX w) pv"
  proof (cases "vertexPivots w")
    case None
    then show ?thesis by (simp add: stored_def)
  next
    case (Some pv)
    then have "length pv = mY w" "list_all (\<lambda>r. length r = mX w) pv"
      using assms by (simp_all add: wf_def)
    then show ?thesis using Some
      by (cases "nat y < length pv")
         (auto simp add: stored_def list_all_length nth_list_update list_update_beyond)
  qed
  have v: "case vertices (stored w x y v) of None \<Rightarrow> True
           | Some vs \<Rightarrow> length vs = mX w * mY w"
    using assms by (cases "vertices w") (simp_all add: stored_def wf_def)
  show ?thesis unfolding wf_def using m p v
    by (simp add: stored_fields cong: option.case_cong)
qed

lemma u_setValue_eq:
  assumes "wf w" "in_bounds w x y"
  shows "u_setValue w x y v =
     Returned (case onMatrixDataChange w of
                 None \<Rightarrow> stored w x y v
               | Some cb \<Rightarrow> (stored w x y v)
                    \<lparr>calls := calls w @ [reported (stored w x y v) v]\<rparr>)"
proof -
  let ?s = "stored w x y v"
  have c: "cell_at (matrix w) x y = Some (matrix w ! nat y ! nat x)"
    using assms by (rule cell_at_inside)
  have s: "move_vertex (w\<lparr>matrix := matrix ?s, vertexPivots := vertexPivots ?s\<rparr>) x y (clamp01 v)
           = Some ?s"
    using move_vertex_step [OF assms] by (simp add: stored_def)
  have p: "move_pivot (w\<lparr>matrix := matrix ?s\<rparr>) x y (clamp01 v)
           = Some (w\<lparr>matrix := matrix ?s, vertexPivots := vertexPivots ?s\<rparr>)"
    using move_pivot_step [OF assms] by (simp add: stored_def)
  have r: "u_setMatrixValueColor
           (w\<lparr>matrix := put_cell (matrix w) x y
                ((matrix w ! nat y ! nat x)\<lparr>cell_value := clamp01 v\<rparr>)\<rparr>) x y =
           w\<lparr>matrix := matrix ?s\<rparr>"
    using recolor_step [OF assms] by (simp add: stored_def)
  have g: "toExternalGrid ?s = Some (snd (snd (snd (reported ?s v))))"
    using stored_wf [OF assms(1), of x y v] toExternalGrid_rect [of ?s]
    by (simp add: wf_def reported_def stored_def)
  have ny: "mY w \<noteq> 0" using assms(2) by (auto simp add: in_bounds_def)
  show ?thesis
  proof (cases "onMatrixDataChange w")
    case None
    then have "onMatrixDataChange ?s = None" by (simp add: stored_def)
    then show ?thesis using None c r p s by (simp add: u_setValue_def Let_def)
  next
    case (Some cb)
    then have cb: "onMatrixDataChange ?s = Some cb" by (simp add: stored_def)
    have "catch_discard (notify ?s cb x y v) =
          Returned (?s\<lparr>calls := calls w @ [reported ?s v]\<rparr>)"
      using catch_notify [OF g, of cb x y v] ny by (simp add: reported_def stored_def)
    then show ?thesis using Some cb c r p s by (simp add: u_setValue_def Let_def)
  qed
qed

subsection \<open>Rounding to five decimals\<close>

lemma floor_rat_numeral:
  "\<lfloor>numeral a / numeral b :: rat\<rfloor> = numeral a div numeral b"
  by (metis floor_divide_of_int_eq of_int_numeral)

lemma floor_half: "\<lfloor>of_int n + 1 / 2 :: rat\<rfloor> = n"
  by (rule floor_unique) simp_all

lemma round5_int:
  assumes "0 < n" "n < 90071992547"
  shows "round5 (Fin (of_int n)) = Fin (of_int n)"
proof -
  have a: "round64 (of_int (n * 100000)) = Fin (of_int (n * 100000))"
    using assms by (intro round64_int) simp_all
  have b: "round64 (of_int n) = Fin (of_int n)"
    using assms by (intro round64_int) simp_all
  have m: "js_mul (Fin (of_int n)) (Fin 100000) = Fin (of_int (n * 100000))"
    using a assms(1) by simp
  have r: "Math_round (Fin (of_int (n * 100000))) = Fin (of_int (n * 100000))"
    using assms(1) by (simp only: Math_round.simps floor_half) simp
  have d: "js_div (Fin (of_int (n * 100000))) (Fin 100000) = Fin (of_int n)"
    using b assms(1) by simp
  show ?thesis unfolding round5_def m r d ..
qed

lemma round5_numeral:
  "numeral k < (90071992547 :: int) \<Longrightarrow> round5 (Fin (numeral k)) = Fin (numeral k)"
  using round5_int [of "numeral k"] by simp

lemma round5_zero: "round5 (Fin 0) = Fin 0"
proof -
  have "\<lfloor>1 / 2 :: rat\<rfloor> = 0" by (rule floor_unique) simp_all
  then show ?thesis by (simp add: round5_def)
qed

lemmas change_defs = stored_def reported_def put_cell_def recolor_def clamp01_def hue_def
  js_sub_def js_gt_def u_getIndexFromCoordinates_def u_convertValueForMatrix_def
  u_convertValueFromMatrix_def round5_numeral round5_zero upt_2

subsection \<open>Construction\<close>

lemmas build_defs = MatrixHeightMap_def setData_def u_computeChart_def u_initMatrix_def init_cell_def
  data_at_def recolor_def clamp01_def hue_def js_sub_def js_gt_def upt_2

lemma setData_wf: "wf (u_computeChart (u_initMatrix w d))"
  by (simp add: wf_def u_computeChart_def u_initMatrix_def list_all_length length_concat_rect)

lemma example_construct:
  "MatrixHeightMap (example_params cb) = Returned
     \<lparr>minZ = Fin 0, maxZ = Fin 100, XAxisNames = [''A'', ''B''], YAxisNames = [''1'', ''2''],
      mX = 2, mY = 2, matrix = [[zero_cell, zero_cell], [zero_cell, zero_cell]],
      vertexPivots = Some [[Fin 0, Fin 0], [Fin 0, Fin 0]],
      vertices = Some [Fin 0, Fin 0, Fin 0, Fin 0],
      onMatrixDataChange = cb, calls = []\<rparr>"
  by (simp add: example_params_def zero_cell_def build_defs)

lemma example_widget_eq:
  "example_widget cb =
     \<lparr>minZ = Fin 0, maxZ = Fin 100, XAxisNames = [''A'', ''B''], YAxisNames = [''1'', ''2''],
      mX = 2, mY = 2, matrix = [[zero_cell, zero_cell], [zero_cell, zero_cell]],
      vertexPivots = Some [[Fin 0, Fin 0], [Fin 0, Fin 0]],
      vertices = Some [Fin 0, Fin 0, Fin 0, Fin 0],
      onMatrixDataChange = cb, calls = []\<rparr>"
  by (simp add: example_widget_def example_construct)

lemma example_wf: "wf (example_widget cb)"
  by (simp add: example_widget_eq wf_def)

lemma example_in_bounds: "in_bounds (example_widget cb) 0 1"
  by (simp add: in_bounds_def example_widget_eq)

subsection \<open>Further facts about a change\<close>

lemma degenerate_construct:
  "MatrixHeightMap degenerate_params = Returned
     \<lparr>minZ = Fin 0, maxZ = Fin 0, XAxisNames = [''A'', ''B''], YAxisNames = [''1'', ''2''],
      mX = 2, mY = 2, matrix = [[zero_cell, zero_cell], [zero_cell, zero_cell]],
      vertexPivots = Some [[Fin 0, Fin 0], [Fin 0, Fin 0]],
      vertices = Some [Fin 0, Fin 0, Fin 0, Fin 0],
      onMatrixDataChange = None, calls = []\<rparr>"
  by (simp add: degenerate_params_def zero_cell_def build_defs)

lemma degenerate_widget_eq:
  "degenerate_widget =
     \<lparr>minZ = Fin 0, maxZ = Fin 0, XAxisNames = [''A'', ''B''], YAxisNames = [''1'', ''2''],
      mX = 2, mY = 2, matrix = [[zero_cell, zero_cell], [zero_cell, zero_cell]],
      vertexPivots = Some [[Fin 0, Fin 0], [Fin 0, Fin 0]],
      vertices = Some [Fin 0, Fin 0, Fin 0, Fin 0],
      onMatrixDataChange = None, calls = []\<rparr>"
  by (simp add: degenerate_widget_def degenerate_construct)

lemma clamp01_in_unit: "v \<noteq> NaN \<Longrightarrow> in_unit (clamp01 v)"
  by (cases v) (simp_all add: clamp01_def js_gt_def)

lemma put_cell_nth:
  assumes "cell_at m x y = Some c0"
  shows "put_cell m x y c ! nat y ! nat x = c"
  using assms by (auto simp add: cell_at_def put_cell_def Let_def split: if_splits)

lemma stored_value:
  assumes "wf w" "in_bounds w x y"
  shows "cell_value (matrix (stored w x y v) ! nat y ! nat x) = clamp01 v"
  using put_cell_nth [OF cell_at_inside [OF assms]]
  by (simp add: stored_fields recolor_def)

lemma u_setValue_returns:
  assumes "wf w" "in_bounds w x y"
  shows "\<exists>w'. u_setValue w x y v = Returned w' \<and> matrix w' = matrix (stored w x y v)"
  using u_setValue_eq [OF assms, of v]
  by (cases "onMatrixDataChange w") simp_all

lemma swap_callback:
  "wf (w\<lparr>onMatrixDataChange := f\<rparr>) = wf w"
  "in_bounds (w\<lparr>onMatrixDataChange := f\<rparr>) x y = in_bounds w x y"
  "stored (w\<lparr>onMatrixDataChange := f\<rparr>) x y v = (stored w x y v)\<lparr>onMatrixDataChange := f\<rparr>"
  "reported (w\<lparr>onMatrixDataChange := f\<rparr>) v = reported w v"
  "u_convertValueFromMatrix (w\<lparr>onMatrixDataChange := f\<rparr>) v = u_convertValueFromMatrix w v"
  by (simp_all add: wf_def in_bounds_def stored_def reported_def u_getIndexFromCoordinates_def
      u_convertValueForMatrix_def u_convertValueFromMatrix_def cong: option.case_cong)

lemma wf_calls: "wf (w\<lparr>calls := c\<rparr>) = wf w"
  by (simp add: wf_def cong: option.case_cong)

subsection \<open>The constructor\<close>

lemma built_fields:
  "minZ (u_computeChart (u_initMatrix w d)) = minZ w"
  "maxZ (u_computeChart (u_initMatrix w d)) = maxZ w"
  "mX (u_computeChart (u_initMatrix w d)) = mX w"
  "mY (u_computeChart (u_initMatrix w d)) = mY w"
  "XAxisNames (u_computeChart (u_initMatrix w d)) = XAxisNames w"
  "YAxisNames (u_computeChart (u_initMatrix w d)) = YAxisNames w"
  "onMatrixDataChange (u_computeChart (u_initMatrix w d)) = onMatrixDataChange w"
  "calls (u_computeChart (u_initMatrix w d)) = calls w"
  "matrix (u_computeChart (u_initMatrix w d)) =
     map (\<lambda>y. map (\<lambda>x. init_cell w d x y) [0..<mX w]) [0..<mY w]"
  by (simp_all add: u_computeChart_def u_initMatrix_def)

lemma construct_returns:
  "\<exists>w. MatrixHeightMap p = Returned w \<and> minZ w = param_min p \<and> maxZ w = param_max p \<and>
       wf w \<and> mX w = length (XAxisNames w) \<and> mY w = length (YAxisNames w) \<and>
       (XAxisNames w, YAxisNames w) =
         (case param_axis p of
            Some (ax, ay) \<Rightarrow> (ax, ay)
          | None \<Rightarrow> ([''A'', ''B'', ''C'', ''D'', ''E''], [''1'', ''2'', ''3'', ''4'', ''5''])) \<and>
       onMatrixDataChange w = param_onChange p \<and> calls w = []"
proof -
  obtain xs ys where a:
    "(case param_axis p of
        Some (ax, ay) \<Rightarrow> (ax, ay)
      | None \<Rightarrow> ([''A'', ''B'', ''C'', ''D'', ''E''], [''1'', ''2'', ''3'', ''4'', ''5''])) = (xs, ys)"
    by (cases "case param_axis p of
        Some (ax, ay) \<Rightarrow> (ax, ay)
      | None \<Rightarrow> ([''A'', ''B'', ''C'', ''D'', ''E''], [''1'', ''2'', ''3'', ''4'', ''5''])") simp
  let ?init = "\<lparr>minZ = param_min p, maxZ = param_max p, XAxisNames = xs, YAxisNames = ys,
              mX = length xs, mY = length ys, matrix = [], vertexPivots = None,
              vertices = None, onMatrixDataChange = None, calls = []\<rparr>"
  let ?w = "(u_computeChart (u_initMatrix ?init (param_data p)))
              \<lparr>onMatrixDataChange := param_onChange p\<rparr>"
  have c: "MatrixHeightMap p = Returned ?w"
    unfolding MatrixHeightMap_def a by (simp only: Let_def prod.case setData_def outcome.case)
  have "wf ?w" using setData_wf [of ?init "param_data p"] by (simp only: swap_callback)
  then show ?thesis using c a by (simp add: built_fields)
qed

subsection \<open>Replacing the grid\<close>

lemma init_cell_value:
  "cell_value (init_cell w d x y) =
     clamp01 (case data_at d x y of Some e \<Rightarrow> u_convertValueFromMatrix w e | None \<Rightarrow> Fin 0)"
  by (simp add: init_cell_def recolor_def)

lemma setData_values:
  "map (map cell_value) (matrix (u_computeChart (u_initMatrix w d))) =
     map (\<lambda>y. map (\<lambda>x. clamp01 (case data_at d x y of
                                    Some e \<Rightarrow> u_convertValueFromMatrix w e
                                  | None \<Rightarrow> Fin 0)) [0..<mX w]) [0..<mY w]"
  by (simp add: built_fields init_cell_value comp_def)

lemma grid_of_nth:
  assumes "length d = h" "\<And>y. y < h \<Longrightarrow> length (d ! y) = n"
  shows "map (\<lambda>y. map (\<lambda>x. f (d ! y ! x)) [0..<n]) [0..<h] = map (map f) d"
proof (rule nth_equalityI)
  show "length (map (\<lambda>y. map (\<lambda>x. f (d ! y ! x)) [0..<n]) [0..<h]) = length (map (map f) d)"
    using assms(1) by simp
next
  fix i assume "i < length (map (\<lambda>y. map (\<lambda>x. f (d ! y ! x)) [0..<n]) [0..<h])"
  then have i: "i < h" by simp
  have "map (\<lambda>x. f (d ! i ! x)) [0..<n] = map f (d ! i)"
    using assms(2) [OF i] by (intro nth_equalityI) simp_all
  then show "map (\<lambda>y. map (\<lambda>x. f (d ! y ! x)) [0..<n]) [0..<h] ! i = map (map f) d ! i"
    using i assms(1) by simp
qed

subsection \<open>The two conversions\<close>

text \<open>
  The errors of the single operations added up along \<open>_convertValueForMatrix\<close>,
  \<open>_convertValueFromMatrix\<close> and the rounding to five decimals. In the proofs \<open>R\<close>
  is the exact \<open>max - min\<close>, \<open>r\<close> the difference the source computes, and
  \<open>\<eta>\<close> is \<open>2\<^sup>-\<^sup>1\<^sup>0\<^sup>7\<^sup>5\<close>.
\<close>

lemma sub_finite:
  assumes "js_sub x y = Fin r"
  shows "finite_val x \<noteq> None \<and> finite_val y \<noteq> None"
  using assms by (cases x; cases y) (simp_all add: js_sub_def split: if_splits)

lemma normalise_not_NaN:
  assumes "js_sub (maxZ w) (minZ w) = Fin r" "r \<noteq> 0" "v \<noteq> NaN"
  shows "u_convertValueFromMatrix w v \<noteq> NaN"
proof -
  have "finite_val (minZ w) \<noteq> None" using sub_finite [OF assms(1)] by simp
  then have "js_sub v (minZ w) \<noteq> NaN"
    using assms(3) by (cases v; cases "minZ w") (simp_all add: js_sub_def)
  then show ?thesis
    using assms(1,2) by (cases "js_sub v (minZ w)") (simp_all add: u_convertValueFromMatrix_def)
qed

lemma eta_small: "pow2 (- 1075) = pow2 (- 1000) / 2 ^ 75"
  using pow2_diff [of "- 1000" 75] by (simp add: pow2_def)

lemma pow2_1000: "pow2 1000 = pow2 900 * 2 ^ 100"
  using pow2_add [of 900 100] by (simp add: pow2_def)

lemma pow2_900_ge: "1 \<le> pow2 900"
  using pow2_le_iff [of 0 900] by (simp add: pow2_def)

lemma pow2_m1000_le: "pow2 (- 1000) \<le> 1"
  using pow2_le_iff [of "- 1000" 0] by (simp add: pow2_def)

lemma round_trip_near:
  assumes lo: "finite_val (minZ w) = Some a" and hi: "finite_val (maxZ w) = Some b"
    and x: "finite_val x = Some v"
    and small: "pow2 (- 1000) \<le> b - a" and large: "b - a \<le> pow2 900"
    and rel: "\<bar>a\<bar> \<le> 2 ^ 30 * (b - a)"
    and v: "0 \<le> v" "v \<le> 1"
  shows "\<exists>c. finite_val (u_convertValueFromMatrix w (u_convertValueForMatrix w x)) = Some c \<and>
             \<bar>c - v\<bar> \<le> 1 / 2 ^ 19"
proof -
  define R where "R = b - a"
  define \<eta> where "\<eta> = pow2 (- 1075)"
  define B where "B = pow2 900"
  have R: "0 < R" using small pow2_pos [of "- 1000"] unfolding R_def by linarith
  have eta: "0 < \<eta>" "\<eta> \<le> R / 37778931862957161709568" "\<eta> \<le> 1 / 37778931862957161709568"
    using small pow2_m1000_le by (simp_all add: \<eta>_def eta_small R_def divide_right_mono)
  have B: "1 \<le> B" "R \<le> B" "pow2 1000 = B * 1267650600228229401496703205376"
    using large pow2_900_ge pow2_1000 by (simp_all add: B_def R_def)
  have A: "\<bar>a\<bar> \<le> 1073741824 * R" using rel by (simp add: R_def)
  have "\<bar>b - a\<bar> \<le> pow2 1000" using R B by (simp add: R_def)
  then obtain r where r: "finite_val (js_sub (maxZ w) (minZ w)) = Some r"
    and re: "\<bar>r - R\<bar> \<le> R / 9007199254740992 + \<eta>"
    using js_sub_err [OF hi lo] R by (auto simp add: err_bound_def R_def \<eta>_def)
  have rb: "R / 2 \<le> r" "r \<le> 2 * R" using re eta R by linarith+
  have r0: "0 < r" using rb R by linarith
  define m where "m = v * r"
  have m: "0 \<le> m" "m \<le> r"
    using v r0 by (simp_all add: m_def mult_left_le_one_le)
  have "\<bar>v * r\<bar> \<le> pow2 1000" using m rb B by (simp add: m_def [symmetric])
  then obtain p where p: "finite_val (js_mul x (js_sub (maxZ w) (minZ w))) = Some p"
    and pe: "\<bar>p - m\<bar> \<le> m / 9007199254740992 + \<eta>"
    using js_mul_err [OF x r] m by (auto simp add: err_bound_def m_def \<eta>_def)
  have pb: "\<bar>p\<bar> \<le> 3 * R" using pe m rb eta R by linarith
  define Y where "Y = \<bar>p + a\<bar>"
  have pa: "Y \<le> 1073741827 * R" unfolding Y_def using pb A by linarith
  then have "\<bar>p + a\<bar> \<le> pow2 1000" using B R unfolding Y_def by linarith
  then obtain s where s: "finite_val (u_convertValueForMatrix w x) = Some s"
    and se: "\<bar>s - (p + a)\<bar> \<le> Y / 9007199254740992 + \<eta>"
    using js_add_err [OF p lo]
    by (auto simp add: err_bound_def u_convertValueForMatrix_def \<eta>_def Y_def)
  have se': "\<bar>s - (p + a)\<bar> \<le> R / 4194304" using se pa eta R by linarith
  define Z where "Z = \<bar>s - a\<bar>"
  have sa: "Z \<le> 4 * R" unfolding Z_def using se' pb R by linarith
  then have "\<bar>s - a\<bar> \<le> pow2 1000" using B R unfolding Z_def by linarith
  then obtain t where t: "finite_val (js_sub (u_convertValueForMatrix w x) (minZ w)) = Some t"
    and te: "\<bar>t - (s - a)\<bar> \<le> Z / 9007199254740992 + \<eta>"
    using js_sub_err [OF s lo] by (auto simp add: err_bound_def \<eta>_def Z_def)
  have te': "\<bar>t - (s - a)\<bar> \<le> R / 1125899906842624" using te sa eta R by linarith
  have pe': "\<bar>p - m\<bar> \<le> R / 1125899906842624" using pe m rb eta R by linarith
  have tm: "\<bar>t - m\<bar> \<le> R / 2097152" using te' se' pe' R by linarith
  define Q where "Q = \<bar>t / r\<bar>"
  have q: "t / r - v = (t - m) / r" using r0 by (simp add: m_def field_simps)
  have "\<bar>t - m\<bar> \<le> r / 1048576" using tm rb by linarith
  then have "\<bar>t - m\<bar> / r \<le> 1 / 1048576" using r0 by (simp add: field_simps)
  then have qe: "\<bar>t / r - v\<bar> \<le> 1 / 1048576" using r0 by (simp add: q)
  then have qb: "Q \<le> 2" unfolding Q_def using v by linarith
  then have "\<bar>t / r\<bar> \<le> pow2 1000" using B unfolding Q_def by linarith
  moreover have "r \<noteq> 0" using r0 by simp
  ultimately obtain c where
    c: "finite_val (u_convertValueFromMatrix w (u_convertValueForMatrix w x)) = Some c"
    and ce: "\<bar>c - t / r\<bar> \<le> Q / 9007199254740992 + \<eta>"
    using js_div_err [OF t r]
    by (auto simp add: err_bound_def u_convertValueFromMatrix_def \<eta>_def Q_def)
  have "\<bar>c - v\<bar> \<le> 1 / 524288" using ce qe qb eta by linarith
  then show ?thesis using c by simp
qed

lemma pow2_1000_ge: "1267650600228229401496703205376 \<le> pow2 1000"
proof -
  have "1 * 2 ^ 100 \<le> pow2 900 * (2 ^ 100 :: rat)"
    using pow2_900_ge by (intro mult_right_mono) simp_all
  then show ?thesis by (simp add: pow2_1000)
qed

lemma range_err:
  assumes lo: "finite_val (minZ w) = Some a" and hi: "finite_val (maxZ w) = Some b"
    and small: "pow2 (- 1000) \<le> b - a" and large: "b - a \<le> pow2 900"
  shows "\<exists>r. finite_val (js_sub (maxZ w) (minZ w)) = Some r \<and>
             \<bar>r - (b - a)\<bar> \<le> (b - a) / 4503599627370496"
proof -
  define R where "R = b - a"
  define \<eta> where "\<eta> = pow2 (- 1075)"
  have R: "0 < R" using small pow2_pos [of "- 1000"] unfolding R_def by linarith
  have eta: "0 < \<eta>" "\<eta> \<le> R / 37778931862957161709568"
    using small by (simp_all add: \<eta>_def eta_small R_def divide_right_mono)
  have "R \<le> pow2 900 * 1267650600228229401496703205376"
    using large pow2_900_ge pow2_pos [of 900] unfolding R_def by (simp add: le_trans mult_le_cancel_left1)
  then have "\<bar>b - a\<bar> \<le> pow2 1000" using R by (simp add: R_def pow2_1000)
  then obtain r where r: "finite_val (js_sub (maxZ w) (minZ w)) = Some r"
    and re: "\<bar>r - R\<bar> \<le> R / 9007199254740992 + \<eta>"
    using js_sub_err [OF hi lo] R by (auto simp add: err_bound_def R_def \<eta>_def)
  have "\<bar>r - R\<bar> \<le> R / 4503599627370496" using re eta R by linarith
  then show ?thesis using r by (auto simp add: R_def)
qed

lemma normalise_near:
  assumes lo: "finite_val (minZ w) = Some a" and hi: "finite_val (maxZ w) = Some b"
    and small: "pow2 (- 1000) \<le> b - a" and large: "b - a \<le> pow2 900"
    and x: "finite_val x = Some e" and e: "a \<le> e" "e \<le> b"
  shows "\<exists>c. finite_val (clamp01 (u_convertValueFromMatrix w x)) = Some c \<and> 0 \<le> c \<and> c \<le> 1 \<and>
             \<bar>c - (e - a) / (b - a)\<bar> \<le> 1 / 562949953421312"
proof -
  define R where "R = b - a"
  define \<eta> where "\<eta> = pow2 (- 1075)"
  define \<nu> where "\<nu> = (e - a) / R"
  have R: "0 < R" using small pow2_pos [of "- 1000"] unfolding R_def by linarith
  have eta: "0 < \<eta>" "\<eta> \<le> R / 37778931862957161709568" "\<eta> \<le> 1 / 37778931862957161709568"
    using small pow2_m1000_le by (simp_all add: \<eta>_def eta_small R_def divide_right_mono)
  have big: "R \<le> pow2 1000"
  proof -
    have "pow2 900 \<le> pow2 1000" by (simp add: pow2_le_iff)
    then show ?thesis using large unfolding R_def by linarith
  qed
  have nu: "0 \<le> \<nu>" "\<nu> \<le> 1" "\<nu> * R = e - a"
    using e R by (simp_all add: \<nu>_def R_def)
  obtain r where r: "finite_val (js_sub (maxZ w) (minZ w)) = Some r"
    and re: "\<bar>r - R\<bar> \<le> R / 4503599627370496"
    using range_err [OF lo hi small large] by (auto simp add: R_def)
  have rb: "R / 2 \<le> r" "r \<le> 2 * R" using re R by linarith+
  have r0: "0 < r" using rb R by linarith
  define g where "g = e - a"
  have ea: "0 \<le> g" "g \<le> R" using e by (simp_all add: R_def g_def)
  then have "\<bar>e - a\<bar> \<le> pow2 1000" using big unfolding g_def by linarith
  then obtain d where d: "finite_val (js_sub x (minZ w)) = Some d"
    and de: "\<bar>d - g\<bar> \<le> g / 9007199254740992 + \<eta>"
    using js_sub_err [OF x lo] ea(1) by (auto simp add: err_bound_def \<eta>_def g_def)
  have de': "\<bar>d - g\<bar> \<le> R / 4503599627370496" using de ea eta R by linarith
  define k where "k = \<nu> * (r - R)"
  have "\<bar>k\<bar> = \<nu> * \<bar>r - R\<bar>" using nu(1) by (simp add: k_def abs_mult)
  also have "\<dots> \<le> 1 * \<bar>r - R\<bar>" using nu(2) by (intro mult_right_mono) simp_all
  also have "\<dots> = \<bar>r - R\<bar>" by simp
  also have "\<dots> \<le> R / 4503599627370496" by (rule re)
  finally have k: "\<bar>k\<bar> \<le> R / 4503599627370496" .
  have "d - \<nu> * r = (d - g) - k"
    using nu(3) by (simp add: k_def g_def algebra_simps)
  then have num: "\<bar>d - \<nu> * r\<bar> \<le> r / 1125899906842624" using de' k rb by linarith
  have q: "d / r - \<nu> = (d - \<nu> * r) / r" using r0 by (simp add: field_simps)
  have "\<bar>d - \<nu> * r\<bar> / r \<le> 1 / 1125899906842624" using num r0 by (simp add: field_simps)
  then have qe: "\<bar>d / r - \<nu>\<bar> \<le> 1 / 1125899906842624" using r0 by (simp add: q)
  define Q where "Q = \<bar>d / r\<bar>"
  have qb: "Q \<le> 2" unfolding Q_def using qe nu by linarith
  have "1267650600228229401496703205376 \<le> pow2 1000" by (rule pow2_1000_ge)
  then have "\<bar>d / r\<bar> \<le> pow2 1000" using qb unfolding Q_def by linarith
  moreover have "r \<noteq> 0" using r0 by simp
  ultimately obtain n where n: "finite_val (u_convertValueFromMatrix w x) = Some n"
    and ne: "\<bar>n - d / r\<bar> \<le> Q / 9007199254740992 + \<eta>"
    using js_div_err [OF d r]
    by (auto simp add: err_bound_def u_convertValueFromMatrix_def \<eta>_def Q_def)
  have nn: "\<bar>n - \<nu>\<bar> \<le> 1 / 562949953421312" using ne qe qb eta by linarith
  obtain c where "finite_val (clamp01 (u_convertValueFromMatrix w x)) = Some c"
    "0 \<le> c" "c \<le> 1" "\<bar>c - \<nu>\<bar> \<le> \<bar>n - \<nu>\<bar>"
    using clamp01_closer [OF n nu(1,2)] by blast
  then show ?thesis using nn by (auto simp add: \<nu>_def R_def)
qed

lemma pow2_900_big: "2097152 \<le> pow2 900"
  using pow2_le_iff [of 21 900] by (simp add: pow2_def)

lemma Math_round_near:
  assumes "finite_val y = Some q"
  shows "\<exists>k. finite_val (Math_round y) = Some k \<and> \<bar>k - q\<bar> \<le> 1 / 2"
proof -
  define F :: rat where "F = of_int \<lfloor>q + 1 / 2\<rfloor>"
  have "F \<le> q + 1 / 2" "q + 1 / 2 < F + 1"
    unfolding F_def using floor_correct [of "q + 1 / 2"] by simp_all
  then have "\<bar>F - q\<bar> \<le> 1 / 2" by linarith
  then have fl: "\<bar>of_int \<lfloor>q + 1 / 2\<rfloor> - q\<bar> \<le> 1 / 2" by (simp add: F_def)
  show ?thesis
  proof (cases y)
    case (Fin a)
    then have "a = q" using assms by simp
    then show ?thesis using Fin fl by auto
  next
    case NZero
    then have "q = 0" using assms by simp
    then show ?thesis using NZero by simp
  qed (use assms in simp_all)
qed

lemma round5_near:
  assumes s: "finite_val x = Some s" and b: "\<bar>s\<bar> \<le> 4194304"
  shows "\<exists>c. finite_val (round5 x) = Some c \<and> \<bar>c - s\<bar> \<le> 1 / 200000 + 1 / 536870912"
proof -
  define \<eta> where "\<eta> = pow2 (- 1075)"
  have eta: "0 < \<eta>" "\<eta> \<le> 1 / 37778931862957161709568"
    using pow2_m1000_le by (simp_all add: \<eta>_def eta_small divide_right_mono)
  note big = pow2_1000_ge
  have h: "finite_val (Fin 100000) = Some 100000" by simp
  define Y where "Y = \<bar>s * 100000\<bar>"
  have Y: "Y \<le> 419430400000" unfolding Y_def using b by (simp add: abs_mult)
  then have "\<bar>s * 100000\<bar> \<le> pow2 1000" using big unfolding Y_def by linarith
  then obtain y where y: "finite_val (js_mul x (Fin 100000)) = Some y"
    and ye: "\<bar>y - s * 100000\<bar> \<le> Y / 9007199254740992 + \<eta>"
    using js_mul_err [OF s h] by (auto simp add: err_bound_def \<eta>_def Y_def)
  obtain k where k: "finite_val (Math_round (js_mul x (Fin 100000))) = Some k"
    and ke: "\<bar>k - y\<bar> \<le> 1 / 2"
    using Math_round_near [OF y] by blast
  define K where "K = \<bar>k / 100000\<bar>"
  have ks: "\<bar>k / 100000 - s\<bar> \<le> 1 / 200000 + 1 / 1073741824" using ke ye Y eta by linarith
  then have K: "K \<le> 4194305" unfolding K_def using b by linarith
  then have "\<bar>k / 100000\<bar> \<le> pow2 1000" using big unfolding K_def by linarith
  then obtain c where c: "finite_val (round5 x) = Some c"
    and ce: "\<bar>c - k / 100000\<bar> \<le> K / 9007199254740992 + \<eta>"
    using js_div_err [OF k h] by (auto simp add: err_bound_def \<eta>_def K_def round5_def)
  have "\<bar>c - s\<bar> \<le> 1 / 200000 + 1 / 536870912" using ce ks K eta by linarith
  then show ?thesis using c by blast
qed

lemma denormalise_near:
  assumes lo: "finite_val (minZ w) = Some a" and hi: "finite_val (maxZ w) = Some b"
    and small: "pow2 (- 1000) \<le> b - a" and a: "\<bar>a\<bar> \<le> 1000000" and b: "\<bar>b\<bar> \<le> 1000000"
    and c: "finite_val x = Some c" "0 \<le> c" "c \<le> 1"
  shows "\<exists>s. finite_val (u_convertValueForMatrix w x) = Some s \<and>
             \<bar>s - (c * (b - a) + a)\<bar> \<le> 1 / 268435456"
proof -
  define R where "R = b - a"
  define \<eta> where "\<eta> = pow2 (- 1075)"
  have eta: "0 < \<eta>" "\<eta> \<le> 1 / 37778931862957161709568"
    using pow2_m1000_le by (simp_all add: \<eta>_def eta_small divide_right_mono)
  note big = pow2_1000_ge
  have R: "0 < R" using small pow2_pos [of "- 1000"] unfolding R_def by linarith
  have R2: "R \<le> 2000000" using a b unfolding R_def by linarith
  then have large: "b - a \<le> pow2 900" using pow2_900_big unfolding R_def by linarith
  obtain r where r: "finite_val (js_sub (maxZ w) (minZ w)) = Some r"
    and re: "\<bar>r - R\<bar> \<le> R / 4503599627370496"
    using range_err [OF lo hi small large] by (auto simp add: R_def)
  have rb: "0 < r" "r \<le> 2 * R" using re R by linarith+
  define m where "m = c * r"
  define t where "t = c * R"
  define h where "h = c * (r - R)"
  have mt: "m = t + h" by (simp add: m_def t_def h_def algebra_simps)
  have m: "0 \<le> m" "m \<le> r" using c(2,3) rb(1) by (simp_all add: m_def mult_left_le_one_le)
  have "\<bar>h\<bar> = c * \<bar>r - R\<bar>" using c(2) by (simp add: h_def abs_mult)
  also have "\<dots> \<le> 1 * \<bar>r - R\<bar>" using c(3) by (intro mult_right_mono) simp_all
  also have "\<dots> = \<bar>r - R\<bar>" by simp
  also have "\<dots> \<le> R / 4503599627370496" by (rule re)
  finally have h: "\<bar>h\<bar> \<le> R / 4503599627370496" .
  have "\<bar>c * r\<bar> \<le> pow2 1000" using m rb R2 big unfolding m_def [symmetric] by linarith
  then obtain p where p: "finite_val (js_mul x (js_sub (maxZ w) (minZ w))) = Some p"
    and pe: "\<bar>p - m\<bar> \<le> m / 9007199254740992 + \<eta>"
    using js_mul_err [OF c(1) r] m(1) by (auto simp add: err_bound_def m_def \<eta>_def)
  define Y where "Y = \<bar>p + a\<bar>"
  have pb: "\<bar>p\<bar> \<le> 4000001" using pe m rb R2 eta by linarith
  have Y: "Y \<le> 5000001" unfolding Y_def using pb a by linarith
  then have "\<bar>p + a\<bar> \<le> pow2 1000" using big unfolding Y_def by linarith
  then obtain s where s: "finite_val (u_convertValueForMatrix w x) = Some s"
    and se: "\<bar>s - (p + a)\<bar> \<le> Y / 9007199254740992 + \<eta>"
    using js_add_err [OF p lo]
    by (auto simp add: err_bound_def u_convertValueForMatrix_def \<eta>_def Y_def)
  have "\<bar>s - (t + a)\<bar> \<le> 1 / 268435456" using se pe h mt m rb R2 Y eta by linarith
  then show ?thesis using s by (auto simp add: t_def R_def)
qed

lemma entry_near:
  assumes lo: "finite_val (minZ w) = Some a" and hi: "finite_val (maxZ w) = Some b"
    and small: "pow2 (- 1000) \<le> b - a" and a: "\<bar>a\<bar> \<le> 1000000" and b: "\<bar>b\<bar> \<le> 1000000"
    and x: "in_range a b x"
  shows "near (1 / 100000)
           (round5 (u_convertValueForMatrix w (clamp01 (u_convertValueFromMatrix w x)))) x"
proof -
  obtain e where e: "finite_val x = Some e" "a \<le> e" "e \<le> b"
    using x by (auto simp add: in_range_def split: option.splits)
  define R where "R = b - a"
  define \<nu> where "\<nu> = (e - a) / R"
  have R: "0 < R" using small pow2_pos [of "- 1000"] unfolding R_def by linarith
  have R2: "R \<le> 2000000" using a b unfolding R_def by linarith
  then have large: "b - a \<le> pow2 900" using pow2_900_big unfolding R_def by linarith
  obtain c where c: "finite_val (clamp01 (u_convertValueFromMatrix w x)) = Some c"
    "0 \<le> c" "c \<le> 1" and cn: "\<bar>c - \<nu>\<bar> \<le> 1 / 562949953421312"
    using normalise_near [OF lo hi small large e] by (auto simp add: \<nu>_def R_def)
  define t where "t = c * R"
  obtain s where s: "finite_val (u_convertValueForMatrix w
        (clamp01 (u_convertValueFromMatrix w x))) = Some s"
    and se: "\<bar>s - (t + a)\<bar> \<le> 1 / 268435456"
    using denormalise_near [OF lo hi small a b c] by (auto simp add: t_def R_def)
  define z where "z = (c - \<nu>) * R"
  have "\<bar>z\<bar> = \<bar>c - \<nu>\<bar> * R" using R by (simp add: z_def abs_mult)
  also have "\<dots> \<le> 1 / 562949953421312 * R" using cn R by (intro mult_right_mono) simp_all
  finally have z: "\<bar>z\<bar> \<le> R / 562949953421312" by simp
  have "\<nu> * R = e - a" using R by (simp add: \<nu>_def)
  then have zt: "z = t + a - e" by (simp add: z_def t_def algebra_simps)
  have st: "\<bar>s - e\<bar> \<le> 1 / 134217728" using se z zt R2 R by linarith
  have "\<bar>e\<bar> \<le> 1000000" using e(2,3) a b by linarith
  then have "\<bar>s\<bar> \<le> 4194304" using st by linarith
  then obtain r where r: "finite_val (round5 (u_convertValueForMatrix w
        (clamp01 (u_convertValueFromMatrix w x)))) = Some r"
    and re: "\<bar>r - s\<bar> \<le> 1 / 200000 + 1 / 536870912"
    using round5_near [OF s] by blast
  have "\<bar>r - e\<bar> \<le> 1 / 100000" using re st by linarith
  then show ?thesis using r e(1) by (simp add: near_def)
qed

lemma offset_range:
  "minZ offset_widget = Fin 1000000" "maxZ offset_widget = Fin 1000001"
  using construct_returns [of offset_params]
  by (auto simp add: offset_widget_def offset_params_def)

lemma offset_round_trip:
  "js_mul (Fin (5404319552844595 / 18014398509481984)) (Fin 1) =
     Fin (5404319552844595 / 18014398509481984)"
  "js_add (Fin (5404319552844595 / 18014398509481984)) (Fin 1000000) =
     Fin (4294968584490189 / 4294967296)"
  "js_sub (Fin (4294968584490189 / 4294967296)) (Fin 1000000) = Fin (1288490189 / 4294967296)"
  "js_div (Fin (1288490189 / 4294967296)) (Fin 1) = Fin (1288490189 / 4294967296)"
  by code_simp+

lemma example_read_back:
  "toExternalGrid (state_of (setData (example_widget None)
      (Some [[Fin 10, Fin (29 / 64)], [Fin 100, Fin 0]]))) =
   Some [[Fin 10, Fin (8162684252616477 / 18014398509481984)], [Fin 100, Fin 0]]"
  by code_simp

section \<open>The value normaliser\<close>

text \<open>
  Claim C3, as stated: for every range with \<open>min < max\<close> and every normalised value \<open>v\<close>
  between 0 and 1, taking \<open>v\<close> to the external range with \<open>_convertValueForMatrix\<close> and
  back with \<open>_convertValueFromMatrix\<close> gives \<open>v\<close> again within five decimal places. It
  fails where the range is narrow beside its bounds. \<open>min = 2\<^sup>5\<^sup>3\<close> and
  \<open>max = 2\<^sup>5\<^sup>3 + 2\<close> are neighbouring binary64 numbers: \<open>0.25 * 2 + min\<close> is rounded
  to \<open>min\<close>, and what comes back is 0, which is 0.25 away from \<open>v\<close>.
\<close>

theorem C3_counterexample:
  "(\<exists>w. MatrixHeightMap coarse_params = Returned w \<and>
        minZ w = Fin 9007199254740992 \<and> maxZ w = Fin 9007199254740994 \<and>
        u_convertValueForMatrix w (Fin (1 / 4)) = Fin 9007199254740992 \<and>
        u_convertValueFromMatrix w (u_convertValueForMatrix w (Fin (1 / 4))) = Fin 0) \<and>
   \<not> near (1 / 100000) (Fin 0) (Fin (1 / 4))"
proof -
  obtain w where w: "MatrixHeightMap coarse_params = Returned w"
    "minZ w = Fin 9007199254740992" "maxZ w = Fin 9007199254740994"
    using construct_returns [of coarse_params] by (auto simp add: coarse_params_def)
  have f: "u_convertValueForMatrix w (Fin (1 / 4)) = Fin 9007199254740992"
    using w(2,3) by (simp add: u_convertValueForMatrix_def js_sub_def big_half)
  have b: "u_convertValueFromMatrix w (Fin 9007199254740992) = Fin 0"
    using w(2,3) by (simp add: u_convertValueFromMatrix_def js_sub_def)
  show ?thesis using w f b by (simp add: near_def)
qed

text \<open>
  Claim C3, amended. Let \<open>min\<close> and \<open>max\<close> be finite with \<open>max - min\<close> between \<open>2\<^sup>-\<^sup>1\<^sup>0\<^sup>0\<^sup>0\<close>
  and \<open>2\<^sup>9\<^sup>0\<^sup>0\<close>, and let the size of \<open>min\<close> be at most \<open>2\<^sup>3\<^sup>0\<close> times \<open>max - min\<close>.
  Then for every finite \<open>v\<close> between 0 and 1, taking \<open>v\<close> to the external range
  and back gives a finite number that differs from \<open>v\<close> by at most 0.000005, half a
  unit of the fifth decimal, and so does the clamp of it to the unit interval, which
  follows every conversion in the source. The bound comes from the error of the five
  roundings on the way. On the range from 1000000 to 1000001, the binary64 number
  nearest to 0.3 comes back as 0.30000000004656613.
\<close>

theorem C3_round_trip:
  assumes "finite_val (minZ w) = Some a" and "finite_val (maxZ w) = Some b"
    and "pow2 (- 1000) \<le> b - a" and "b - a \<le> pow2 900" and "\<bar>a\<bar> \<le> 2 ^ 30 * (b - a)"
    and "finite_val x = Some v" and "0 \<le> v" and "v \<le> 1"
  shows "near (1 / 200000) (u_convertValueFromMatrix w (u_convertValueForMatrix w x)) x \<and>
         near (1 / 200000)
           (clamp01 (u_convertValueFromMatrix w (u_convertValueForMatrix w x))) x"
proof -
  obtain c where c: "finite_val (u_convertValueFromMatrix w (u_convertValueForMatrix w x)) = Some c"
    and ce: "\<bar>c - v\<bar> \<le> 1 / 2 ^ 19"
    using round_trip_near [OF assms(1,2,6,3,4,5,7,8)] by blast
  obtain c' where c': "finite_val (clamp01 (u_convertValueFromMatrix w
        (u_convertValueForMatrix w x))) = Some c'" and ce': "\<bar>c' - v\<bar> \<le> \<bar>c - v\<bar>"
    using clamp01_closer [OF c assms(7,8)] by blast
  have "\<bar>c - v\<bar> \<le> 1 / 200000" using ce by simp
  moreover have "\<bar>c' - v\<bar> \<le> 1 / 200000" using ce ce' by simp
  ultimately show ?thesis using c c' assms(6) by (simp add: near_def)
qed

theorem C3_round_trip_witness:
  "finite_val (minZ offset_widget) = Some 1000000 \<and>
   finite_val (maxZ offset_widget) = Some 1000001 \<and>
   pow2 (- 1000) \<le> 1000001 - 1000000 \<and> 1000001 - 1000000 \<le> pow2 900 \<and>
   \<bar>1000000 :: rat\<bar> \<le> 2 ^ 30 * (1000001 - 1000000) \<and>
   finite_val (Fin (5404319552844595 / 18014398509481984)) =
     Some (5404319552844595 / 18014398509481984) \<and>
   (0 :: rat) \<le> 5404319552844595 / 18014398509481984 \<and>
   (5404319552844595 / 18014398509481984 :: rat) \<le> 1 \<and>
   u_convertValueForMatrix offset_widget (Fin (5404319552844595 / 18014398509481984)) =
     Fin (4294968584490189 / 4294967296) \<and>
   u_convertValueFromMatrix offset_widget (Fin (4294968584490189 / 4294967296)) =
     Fin (1288490189 / 4294967296) \<and>
   near (1 / 200000) (Fin (1288490189 / 4294967296))
     (Fin (5404319552844595 / 18014398509481984)) \<and>
   near (1 / 200000) (clamp01 (Fin (1288490189 / 4294967296)))
     (Fin (5404319552844595 / 18014398509481984))"
proof -
  have lo: "finite_val (minZ offset_widget) = Some 1000000"
    and hi: "finite_val (maxZ offset_widget) = Some 1000001"
    by (simp_all add: offset_range)
  have small: "pow2 (- 1000) \<le> 1000001 - 1000000" using pow2_m1000_le by simp
  have large: "1000001 - 1000000 \<le> pow2 900" using pow2_900_ge by simp
  have rel: "\<bar>1000000 :: rat\<bar> \<le> 2 ^ 30 * (1000001 - 1000000)" by simp
  have x: "finite_val (Fin (5404319552844595 / 18014398509481984)) =
     Some (5404319552844595 / 18014398509481984)" by simp
  have v: "(0 :: rat) \<le> 5404319552844595 / 18014398509481984"
    "(5404319552844595 / 18014398509481984 :: rat) \<le> 1" by simp_all
  have r: "js_sub (Fin 1000001) (Fin 1000000) = Fin 1" by (simp add: js_sub_def)
  have f: "u_convertValueForMatrix offset_widget (Fin (5404319552844595 / 18014398509481984)) =
     Fin (4294968584490189 / 4294967296)"
    unfolding u_convertValueForMatrix_def offset_range r offset_round_trip ..
  have b: "u_convertValueFromMatrix offset_widget (Fin (4294968584490189 / 4294967296)) =
     Fin (1288490189 / 4294967296)"
    unfolding u_convertValueFromMatrix_def offset_range r offset_round_trip ..
  show ?thesis
    using lo hi small large rel v f b C3_round_trip [OF lo hi small large rel x v]
    by simp
qed

text \<open>
  Claim C7, as stated: with \<open>min = max\<close> the configuration is rejected by the
  constructor, or every external value is normalised to 0, so that no division by zero
  takes place. Neither holds: the constructor returns, \<open>max - min\<close> is 0, and the
  external value 7 is normalised to \<open>+Infinity\<close>.
\<close>

theorem C7_counterexample:
  "MatrixHeightMap degenerate_params = Returned degenerate_widget \<and>
   js_sub (maxZ degenerate_widget) (minZ degenerate_widget) = Fin 0 \<and>
   u_convertValueFromMatrix degenerate_widget (Fin 7) = PInf"
  by (simp add: degenerate_construct degenerate_widget_eq u_convertValueFromMatrix_def js_sub_def)

text \<open>
  Claim C7, amended. With a finite \<open>min = max\<close> (the two zeros are equal, so \<open>+0\<close> with
  \<open>-0\<close> is such a range) the constructor returns a widget, and
  \<open>_convertValueFromMatrix\<close> divides by the zero \<open>max - min\<close>. For an external binary64
  number or zero: \<open>min\<close> itself gives \<open>NaN\<close>; a value above \<open>min\<close> gives \<open>+Infinity\<close> and
  one below \<open>min\<close> gives \<open>-Infinity\<close>, except that the two are exchanged when
  \<open>max - min\<close> is \<open>-0\<close>, which it is for \<open>min = +0\<close>, \<open>max = -0\<close> and for no other
  range. The clamp that \<open>_setValue\<close> and \<open>_initMatrix\<close> apply next stores \<open>NaN\<close> for
  \<open>NaN\<close>, 1 for \<open>+Infinity\<close> and 0 for \<open>-Infinity\<close>.
\<close>

theorem C7_degenerate_range:
  assumes "finite_val (param_min p) = Some a" and "finite_val (param_max p) = Some a"
    and "finite_val x = Some e" and "is_double a" and "is_double e"
  shows "\<exists>w. MatrixHeightMap p = Returned w \<and> minZ w = param_min p \<and> maxZ w = param_max p \<and>
           js_sub (maxZ w) (minZ w) =
             (if param_max p = NZero \<and> param_min p = Fin 0 then NZero else Fin 0) \<and>
           u_convertValueFromMatrix w x =
             (if e = a then NaN
              else if (a < e) \<noteq> (param_max p = NZero \<and> param_min p = Fin 0) then PInf
              else NInf) \<and>
           clamp01 (u_convertValueFromMatrix w x) =
             (if e = a then NaN
              else if (a < e) \<noteq> (param_max p = NZero \<and> param_min p = Fin 0) then Fin 1
              else Fin 0)"
proof -
  obtain w where w: "MatrixHeightMap p = Returned w" "minZ w = param_min p" "maxZ w = param_max p"
    using construct_returns [of p] by auto
  define z where "z = js_sub (param_max p) (param_min p)"
  have z: "z = (if param_max p = NZero \<and> param_min p = Fin 0 then NZero else Fin 0)"
    unfolding z_def using sub_sign_zero [OF assms(2,1)] .
  then have z0: "z = Fin 0 \<or> z = NZero" by simp
  have c: "u_convertValueFromMatrix w x = js_div (js_sub x (param_min p)) z"
    by (simp add: u_convertValueFromMatrix_def w z_def)
  have v: "u_convertValueFromMatrix w x =
             (if e = a then NaN
              else if (a < e) \<noteq> (param_max p = NZero \<and> param_min p = Fin 0) then PInf
              else NInf)"
  proof (cases "e = a")
    case True
    then have "js_sub x (param_min p) = Fin 0 \<or> js_sub x (param_min p) = NZero"
      using sub_sign_zero [of x a "param_min p"] assms(1,3) by simp
    then show ?thesis using True c div_by_zero(1,2) [OF z0] by auto
  next
    case False
    show ?thesis
    proof (cases "a < e")
      case True
      then have "js_sub x (param_min p) = PInf \<or>
                 (\<exists>v. 0 < v \<and> js_sub x (param_min p) = Fin v)"
        using sub_sign_pos [OF assms(3,1,5,4)] by simp
      then have "js_div (js_sub x (param_min p)) z = (if z = NZero then NInf else PInf)"
        using div_by_zero(3,5) [OF z0] by auto
      then show ?thesis using True False c z by auto
    next
      case ge: False
      then have "e < a" using False by simp
      then have "js_sub x (param_min p) = NInf \<or>
                 (\<exists>v. v < 0 \<and> js_sub x (param_min p) = Fin v)"
        using sub_sign_neg [OF assms(3,1,5,4)] by simp
      then have "js_div (js_sub x (param_min p)) z = (if z = NZero then PInf else NInf)"
        using div_by_zero(4,6) [OF z0] by auto
      then show ?thesis using ge False c z by auto
    qed
  qed
  have "js_sub (maxZ w) (minZ w) =
          (if param_max p = NZero \<and> param_min p = Fin 0 then NZero else Fin 0)"
    using z by (simp add: w z_def)
  moreover have "clamp01 NaN = NaN" "clamp01 PInf = Fin 1" "clamp01 NInf = Fin 0"
    by (simp_all add: clamp01_def js_gt_def)
  ultimately show ?thesis using w v by auto
qed

theorem C7_degenerate_range_witness:
  "finite_val (param_min degenerate_params) = Some 0 \<and>
   finite_val (param_max degenerate_params) = Some 0 \<and>
   finite_val (Fin (- 3)) = Some (- 3) \<and> is_double 0 \<and> is_double (- 3) \<and>
   (\<exists>w. MatrixHeightMap degenerate_params = Returned w \<and> minZ w = Fin 0 \<and> maxZ w = Fin 0 \<and>
        js_sub (maxZ w) (minZ w) = Fin 0 \<and>
        u_convertValueFromMatrix w (Fin (- 3)) = NInf \<and>
        clamp01 (u_convertValueFromMatrix w (Fin (- 3))) = Fin 0) \<and>
   finite_val (param_min signed_zero_params) = Some 0 \<and>
   finite_val (param_max signed_zero_params) = Some 0 \<and>
   finite_val (Fin 7) = Some 7 \<and> is_double 7 \<and>
   (\<exists>w. MatrixHeightMap signed_zero_params = Returned w \<and> minZ w = Fin 0 \<and> maxZ w = NZero \<and>
        js_sub (maxZ w) (minZ w) = NZero \<and>
        u_convertValueFromMatrix w (Fin 7) = NInf \<and>
        clamp01 (u_convertValueFromMatrix w (Fin 7)) = Fin 0)"
proof -
  have lo: "finite_val (param_min degenerate_params) = Some 0"
    and hi: "finite_val (param_max degenerate_params) = Some 0"
    by (simp_all add: degenerate_params_def)
  have lo': "finite_val (param_min signed_zero_params) = Some 0"
    and hi': "finite_val (param_max signed_zero_params) = Some 0"
    by (simp_all add: signed_zero_params_def)
  have x: "finite_val (Fin (- 3)) = Some (- 3)" and x': "finite_val (Fin 7) = Some 7"
    by simp_all
  have d0: "is_double 0" and d3: "is_double (- 3)" and d7: "is_double 7"
    by (simp_all add: is_double_def)
  have one: "\<exists>w. MatrixHeightMap degenerate_params = Returned w \<and> minZ w = Fin 0 \<and>
        maxZ w = Fin 0 \<and> js_sub (maxZ w) (minZ w) = Fin 0 \<and>
        u_convertValueFromMatrix w (Fin (- 3)) = NInf \<and>
        clamp01 (u_convertValueFromMatrix w (Fin (- 3))) = Fin 0"
    using C7_degenerate_range [OF lo hi x d0 d3] by (simp add: degenerate_params_def)
  have two: "\<exists>w. MatrixHeightMap signed_zero_params = Returned w \<and> minZ w = Fin 0 \<and>
        maxZ w = NZero \<and> js_sub (maxZ w) (minZ w) = NZero \<and>
        u_convertValueFromMatrix w (Fin 7) = NInf \<and>
        clamp01 (u_convertValueFromMatrix w (Fin 7)) = Fin 0"
    using C7_degenerate_range [OF lo' hi' x' d0 d7] by (simp add: signed_zero_params_def)
  show ?thesis using lo hi lo' hi' d0 d3 d7 one two by simp
qed

section \<open>Changing one cell\<close>

text \<open>
  Claim C1. On the widget with columns \<open>A\<close>, \<open>B\<close>, rows \<open>1\<close>, \<open>2\<close>, range 0 to 100 and no
  initial data, \<open>setValue(0, 1, 50)\<close> stores the external value 50 at row 1, column 0
  and calls the registered callback once. The claim expects the arguments
  \<open>(0, 1, 50, grid)\<close>; the source passes \<open>(2, 2, 50, grid)\<close>, because the loops that
  build the grid count in the parameters \<open>x\<close> and \<open>y\<close>. The theorem evaluates the source
  on the scenario, for any callback.
\<close>

theorem C1_callback_arguments:
  "calls (state_of (setValue (example_widget (Some cb)) 0 1 (Fin 50))) =
     [(2, 2, Fin 50, [[Fin 0, Fin 0], [Fin 50, Fin 0]])] \<and>
   map (map cell_value) (matrix (state_of (setValue (example_widget (Some cb)) 0 1 (Fin 50)))) =
     [[Fin 0, Fin 0], [Fin (1 / 2), Fin 0]] \<and>
   toExternalGrid (state_of (setValue (example_widget (Some cb)) 0 1 (Fin 50))) =
     Some [[Fin 0, Fin 0], [Fin 50, Fin 0]]"
proof -
  have "setValue (example_widget (Some cb)) 0 1 (Fin 50) =
        Returned ((stored (example_widget (Some cb)) 0 1 (Fin (1 / 2)))
          \<lparr>calls := [(2, 2, Fin 50, [[Fin 0, Fin 0], [Fin 50, Fin 0]])]\<rparr>)"
    using u_setValue_eq [OF example_wf example_in_bounds, of "Some cb" "Fin (1 / 2)"]
    by (simp add: setValue_def example_widget_eq zero_cell_def change_defs)
  then show ?thesis
    by (simp add: toExternalGrid_def external_cell_def cell_at_def example_widget_eq zero_cell_def
        change_defs)
qed

text \<open>
  Claim C8, as stated: for a coordinate outside the grid, \<open>setValue\<close> either does
  nothing and returns, or raises an \<open>OutOfRange\<close> error, with the grid unchanged. The
  source does neither: on the example, \<open>setValue(2, 0, 50)\<close> does not return, and
  what it raises is the \<open>TypeError\<close> of the language.
\<close>

theorem C8_counterexample:
  "setValue (example_widget None) 2 0 (Fin 50) = Thrown TypeError (example_widget None) \<and>
   setValue (example_widget None) 2 0 (Fin 50) \<noteq> Returned (example_widget None) \<and>
   setValue (example_widget None) 2 0 (Fin 50) \<noteq> Thrown OutOfRangeError (example_widget None)"
  by (simp add: setValue_def u_setValue_def cell_at_def example_widget_eq)

text \<open>
  Claim C8, amended. For a coordinate outside the grid (a column below 0 or not below
  the width, a row below 0 or not below the height) \<open>setValue\<close> and \<open>_setValue\<close>
  follow one policy: the call raises the \<open>TypeError\<close> that the read of
  \<open>this.matrix[y][x]\<close>, or the write to the undefined cell, raises, and the widget is
  left exactly as it was, so no cell has changed and the callback has not been called.
\<close>

theorem C8_out_of_bounds:
  assumes "wf w" and "\<not> in_bounds w x y"
  shows "setValue w x y v = Thrown TypeError w \<and> u_setValue w x y v = Thrown TypeError w"
  using cell_at_outside [OF assms] by (simp add: setValue_def u_setValue_def)

theorem C8_out_of_bounds_witness:
  "wf (example_widget (Some (\<lambda>a. Returns))) \<and>
   \<not> in_bounds (example_widget (Some (\<lambda>a. Returns))) 2 0 \<and>
   setValue (example_widget (Some (\<lambda>a. Returns))) 2 0 (Fin 50) =
     Thrown TypeError (example_widget (Some (\<lambda>a. Returns))) \<and>
   calls (example_widget (Some (\<lambda>a. Returns))) = []"
proof -
  have out: "\<not> in_bounds (example_widget (Some (\<lambda>a. Returns))) 2 0"
    by (simp add: in_bounds_def example_widget_eq)
  show ?thesis
    using out example_wf C8_out_of_bounds [OF example_wf out, of "Fin 50"]
    by (simp add: example_widget_eq)
qed

text \<open>
  Claim C2, as stated: for every in-bounds coordinate and every proposed value, the
  value stored by \<open>setValue\<close> lies between 0 and 1. It fails where the proposed value
  is \<open>NaN\<close>, on which both clamping tests are false: with the range \<open>min = max = 0\<close>,
  \<open>setValue(0, 1, 0)\<close> normalises 0 to \<open>(0 - 0) / (0 - 0)\<close>, which is \<open>NaN\<close>, and
  stores it.
\<close>

theorem C2_counterexample:
  "in_bounds degenerate_widget 0 1 \<and>
   setValue degenerate_widget 0 1 (Fin 0) = Returned (stored degenerate_widget 0 1 NaN) \<and>
   map (map cell_value) (matrix (stored degenerate_widget 0 1 NaN)) =
     [[Fin 0, Fin 0], [NaN, Fin 0]] \<and>
   \<not> in_unit NaN"
proof -
  have w: "wf degenerate_widget" by (simp add: degenerate_widget_eq wf_def)
  have b: "in_bounds degenerate_widget 0 1" by (simp add: degenerate_widget_eq in_bounds_def)
  have n: "u_convertValueFromMatrix degenerate_widget (Fin 0) = NaN"
    by (simp add: degenerate_widget_eq u_convertValueFromMatrix_def js_sub_def)
  have "setValue degenerate_widget 0 1 (Fin 0) = Returned (stored degenerate_widget 0 1 NaN)"
    using u_setValue_eq [OF w b, of NaN] n by (simp add: setValue_def degenerate_widget_eq)
  then show ?thesis using b
    by (simp add: degenerate_widget_eq zero_cell_def change_defs)
qed

text \<open>
  Claim C2, amended. For every in-bounds coordinate, \<open>_setValue\<close> of any value other
  than \<open>NaN\<close>, however large or small, an infinity included, returns and leaves a
  value between 0 and 1 in the cell; so does \<open>setValue\<close> of any external value other
  than \<open>NaN\<close> when \<open>max - min\<close>, as the source computes it, is a finite number other
  than zero (a difference that overflows to an infinity makes
  \<open>Infinity / Infinity\<close>, which is \<open>NaN\<close>, of a large external value). On the example,
  \<open>_setValue\<close> of \<open>+Infinity\<close> stores 1, and \<open>setValue(0, 1, 150)\<close> stores 1, the
  external value 100.
\<close>

theorem C2_clamping:
  assumes "wf w" and "in_bounds w x y"
  shows "(v \<noteq> NaN \<longrightarrow>
            (\<exists>w'. u_setValue w x y v = Returned w' \<and>
                  in_unit (cell_value (matrix w' ! nat y ! nat x)))) \<and>
         (js_sub (maxZ w) (minZ w) = Fin r \<and> r \<noteq> 0 \<and> e \<noteq> NaN \<longrightarrow>
            (\<exists>w'. setValue w x y e = Returned w' \<and>
                  in_unit (cell_value (matrix w' ! nat y ! nat x))))"
proof (intro conjI impI)
  assume "v \<noteq> NaN"
  then show "\<exists>w'. u_setValue w x y v = Returned w' \<and>
                  in_unit (cell_value (matrix w' ! nat y ! nat x))"
    using u_setValue_returns [OF assms, of v] stored_value [OF assms, of v] clamp01_in_unit [of v]
    by auto
next
  assume r: "js_sub (maxZ w) (minZ w) = Fin r \<and> r \<noteq> 0 \<and> e \<noteq> NaN"
  let ?n = "u_convertValueFromMatrix w e"
  have "?n \<noteq> NaN" using normalise_not_NaN [of w r e] r by simp
  then show "\<exists>w'. setValue w x y e = Returned w' \<and>
                  in_unit (cell_value (matrix w' ! nat y ! nat x))"
    using u_setValue_returns [OF assms, of ?n] stored_value [OF assms, of ?n]
      clamp01_in_unit [of ?n]
    by (auto simp add: setValue_def)
qed

theorem C2_clamping_witness:
  "wf (example_widget None) \<and> in_bounds (example_widget None) 0 1 \<and>
   PInf \<noteq> NaN \<and>
   (\<exists>w'. u_setValue (example_widget None) 0 1 PInf = Returned w' \<and>
         in_unit (cell_value (matrix w' ! nat 1 ! nat 0))) \<and>
   map (map cell_value) (matrix (state_of (u_setValue (example_widget None) 0 1 PInf))) =
     [[Fin 0, Fin 0], [Fin 1, Fin 0]] \<and>
   js_sub (maxZ (example_widget None)) (minZ (example_widget None)) = Fin 100 \<and>
   (100::rat) \<noteq> 0 \<and> Fin 150 \<noteq> NaN \<and>
   (\<exists>w'. setValue (example_widget None) 0 1 (Fin 150) = Returned w' \<and>
         in_unit (cell_value (matrix w' ! nat 1 ! nat 0))) \<and>
   map (map cell_value) (matrix (state_of (setValue (example_widget None) 0 1 (Fin 150)))) =
     [[Fin 0, Fin 0], [Fin 1, Fin 0]] \<and>
   toExternalGrid (state_of (setValue (example_widget None) 0 1 (Fin 150))) =
     Some [[Fin 0, Fin 0], [Fin 100, Fin 0]]"
proof -
  have r: "js_sub (maxZ (example_widget None)) (minZ (example_widget None)) = Fin 100"
    by (simp add: example_widget_eq js_sub_def)
  have both: "(\<exists>w'. u_setValue (example_widget None) 0 1 PInf = Returned w' \<and>
         in_unit (cell_value (matrix w' ! nat 1 ! nat 0))) \<and>
     (\<exists>w'. setValue (example_widget None) 0 1 (Fin 150) = Returned w' \<and>
         in_unit (cell_value (matrix w' ! nat 1 ! nat 0)))"
    using C2_clamping [OF example_wf example_in_bounds, of PInf None 100 "Fin 150"] r by simp
  have "u_setValue (example_widget None) 0 1 PInf =
        Returned (stored (example_widget None) 0 1 PInf)"
    using u_setValue_eq [OF example_wf example_in_bounds, of None PInf]
    by (simp add: example_widget_eq)
  then have inf: "map (map cell_value)
       (matrix (state_of (u_setValue (example_widget None) 0 1 PInf))) =
     [[Fin 0, Fin 0], [Fin 1, Fin 0]]"
    by (simp add: example_widget_eq zero_cell_def change_defs)
  have "setValue (example_widget None) 0 1 (Fin 150) =
        Returned (stored (example_widget None) 0 1 (Fin (3 / 2)))"
    using u_setValue_eq [OF example_wf example_in_bounds, of None "Fin (3 / 2)"]
    by (simp add: setValue_def example_widget_eq zero_cell_def change_defs)
  then have "map (map cell_value) (matrix (state_of (setValue (example_widget None) 0 1 (Fin 150)))) =
     [[Fin 0, Fin 0], [Fin 1, Fin 0]] \<and>
   toExternalGrid (state_of (setValue (example_widget None) 0 1 (Fin 150))) =
     Some [[Fin 0, Fin 0], [Fin 100, Fin 0]]"
    by (simp add: toExternalGrid_def external_cell_def cell_at_def example_widget_eq zero_cell_def
        change_defs)
  then show ?thesis using r both inf example_wf example_in_bounds by simp
qed

text \<open>
  Claim C6. When the registered callback throws during \<open>setValue\<close>, the exception is
  dropped where the callback is called: \<open>setValue\<close> returns, the cell holds the clamped
  value and the colours computed from it, every other cell is as before, and the widget
  is the one a callback that returns would have left, so that the next call of
  \<open>setValue\<close> finds a well-formed widget of the same dimensions and range with the
  callback still registered. The statement holds for every callback \<open>cb\<close>, whatever it
  does on any argument; the example takes the callback that always throws.
\<close>

theorem C6_callback_exception_discarded:
  assumes "wf w" and "in_bounds w x y" and "onMatrixDataChange w = Some cb"
  shows "\<exists>w'. setValue w x y v = Returned w' \<and>
           matrix w' = put_cell (matrix w) x y
             (recolor ((matrix w ! nat y ! nat x)
                \<lparr>cell_value := clamp01 (u_convertValueFromMatrix w v)\<rparr>)) \<and>
           wf w' \<and> mX w' = mX w \<and> mY w' = mY w \<and>
           minZ w' = minZ w \<and> maxZ w' = maxZ w \<and> onMatrixDataChange w' = Some cb \<and>
           setValue (w\<lparr>onMatrixDataChange := Some (\<lambda>a. Returns)\<rparr>) x y v =
             Returned (w'\<lparr>onMatrixDataChange := Some (\<lambda>a. Returns)\<rparr>)"
proof -
  let ?n = "u_convertValueFromMatrix w v"
  let ?w' = "(stored w x y ?n)\<lparr>calls := calls w @ [reported (stored w x y ?n) ?n]\<rparr>"
  let ?r = "w\<lparr>onMatrixDataChange := Some (\<lambda>a. Returns)\<rparr>"
  have one: "setValue w x y v = Returned ?w'"
    using u_setValue_eq [OF assms(1,2), of ?n] assms(3) by (simp add: setValue_def)
  have "wf ?r" "in_bounds ?r x y"
    using assms(1,2) by (simp_all add: swap_callback)
  then have two: "setValue ?r x y v = Returned (?w'\<lparr>onMatrixDataChange := Some (\<lambda>a. Returns)\<rparr>)"
    using u_setValue_eq [of ?r x y ?n]
    by (simp add: setValue_def swap_callback stored_fields)
  have "wf ?w'" using stored_wf [OF assms(1), of x y ?n] by (simp add: wf_calls)
  then show ?thesis using one two assms(3) by (simp add: stored_fields)
qed

theorem C6_callback_exception_discarded_witness:
  "wf (example_widget (Some (\<lambda>a. Throws))) \<and>
   in_bounds (example_widget (Some (\<lambda>a. Throws))) 0 1 \<and>
   onMatrixDataChange (example_widget (Some (\<lambda>a. Throws))) = Some (\<lambda>a. Throws) \<and>
   (\<exists>w'. setValue (example_widget (Some (\<lambda>a. Throws))) 0 1 (Fin 50) = Returned w' \<and>
         map (map cell_value) (matrix w') = [[Fin 0, Fin 0], [Fin (1 / 2), Fin 0]] \<and>
         map (map cell_color) (matrix w') =
           [[HSL (Fin 128) 100 50, HSL (Fin 128) 100 50],
            [HSL (Fin 64) 100 50, HSL (Fin 128) 100 50]] \<and>
         (\<exists>w''. setValue w' 1 0 (Fin 25) = Returned w'' \<and>
            toExternalGrid w'' = Some [[Fin 0, Fin 25], [Fin 50, Fin 0]]))"
proof -
  let ?w = "example_widget (Some (\<lambda>a. Throws))"
  have cb: "onMatrixDataChange ?w = Some (\<lambda>a. Throws)" by (simp add: example_widget_eq)
  obtain w' where one: "setValue ?w 0 1 (Fin 50) = Returned w'"
    and m: "matrix w' = put_cell (matrix ?w) 0 1
             (recolor ((matrix ?w ! nat 1 ! nat 0)
                \<lparr>cell_value := clamp01 (u_convertValueFromMatrix ?w (Fin 50))\<rparr>))"
    and w: "wf w'" and d: "mX w' = mX ?w" "mY w' = mY ?w"
    and r: "minZ w' = minZ ?w" "maxZ w' = maxZ ?w"
    and cb': "onMatrixDataChange w' = Some (\<lambda>a. Throws)"
    using C6_callback_exception_discarded [OF example_wf example_in_bounds cb, of "Fin 50"]
    by blast
  have m': "matrix w' = [[zero_cell, zero_cell],
      [\<lparr>cell_value = Fin (1 / 2), cell_color = HSL (Fin 64) 100 50,
        cell_fadedColor = Some (HSL (Fin 64) 75 75)\<rparr>, zero_cell]]"
    using m by (simp add: example_widget_eq zero_cell_def change_defs)
  have b: "in_bounds w' 1 0" using d by (simp add: in_bounds_def example_widget_eq)
  obtain w'' where two: "setValue w' 1 0 (Fin 25) = Returned w''"
    and m2: "matrix w'' = put_cell (matrix w') 1 0
             (recolor ((matrix w' ! nat 0 ! nat 1)
                \<lparr>cell_value := clamp01 (u_convertValueFromMatrix w' (Fin 25))\<rparr>))"
    and w2: "wf w''" and d2: "mX w'' = mX w'" "mY w'' = mY w'"
    and r2: "minZ w'' = minZ w'" "maxZ w'' = maxZ w'"
    using C6_callback_exception_discarded [OF w b cb', of "Fin 25"] by blast
  have m2': "matrix w'' =
      [[zero_cell, \<lparr>cell_value = Fin (1 / 4), cell_color = HSL (Fin 96) 100 50,
          cell_fadedColor = Some (HSL (Fin 96) 75 75)\<rparr>],
       [\<lparr>cell_value = Fin (1 / 2), cell_color = HSL (Fin 64) 100 50,
          cell_fadedColor = Some (HSL (Fin 64) 75 75)\<rparr>, zero_cell]]"
    using m2 m' r by (simp add: example_widget_eq zero_cell_def change_defs)
  have "length (matrix w'') = mY w''" "list_all (\<lambda>row. length row = mX w'') (matrix w'')"
    using w2 by (simp_all add: wf_def)
  then have g: "toExternalGrid w'' = Some [[Fin 0, Fin 25], [Fin 50, Fin 0]]"
    using toExternalGrid_rect [of w''] d d2 r r2 m2'
    by (simp add: example_widget_eq zero_cell_def change_defs)
  show ?thesis
    using example_wf cb example_in_bounds one two g m'
    by (simp add: zero_cell_def)
qed

section \<open>The Z axis labels\<close>

text \<open>
  Claim C9. The strip of the Z axis has eleven tick values, and the claim expects them
  to divide the range evenly: from \<open>max\<close> down to \<open>min\<close> in steps of
  \<open>(max - min) / 10\<close>. The source rounds the step with \<open>Math.round\<close> before the
  loop: for the range from 0 to 5 the step is 1, not 0.5, and the last tick is -5, not
  0; for the range from 0 to 1 the step is 0 and all eleven ticks are 1. The theorem
  evaluates the source on both ranges.
\<close>

theorem C9_rounded_step:
  "u_makeZGridLine_axisValues
     (state_of (MatrixHeightMap ((example_params None)\<lparr>param_max := Fin 5\<rparr>))) =
     [Fin 5, Fin 4, Fin 3, Fin 2, Fin 1, Fin 0, Fin (- 1), Fin (- 2), Fin (- 3), Fin (- 4),
      Fin (- 5)] \<and>
   u_makeZGridLine_axisValues
     (state_of (MatrixHeightMap ((example_params None)\<lparr>param_max := Fin 1\<rparr>))) =
     [Fin 1, Fin 1, Fin 1, Fin 1, Fin 1, Fin 1, Fin 1, Fin 1, Fin 1, Fin 1, Fin 1]"
proof -
  obtain w where w: "MatrixHeightMap ((example_params None)\<lparr>param_max := Fin 5\<rparr>) = Returned w"
    "minZ w = Fin 0" "maxZ w = Fin 5"
    using construct_returns [of "(example_params None)\<lparr>param_max := Fin 5\<rparr>"]
    by (auto simp add: example_params_def)
  obtain u where u: "MatrixHeightMap ((example_params None)\<lparr>param_max := Fin 1\<rparr>) = Returned u"
    "minZ u = Fin 0" "maxZ u = Fin 1"
    using construct_returns [of "(example_params None)\<lparr>param_max := Fin 1\<rparr>"]
    by (auto simp add: example_params_def)
  have five: "u_makeZGridLine_axisValues w =
     [Fin 5, Fin 4, Fin 3, Fin 2, Fin 1, Fin 0, Fin (- 1), Fin (- 2), Fin (- 3), Fin (- 4),
      Fin (- 5)]"
    using w(2,3) by (simp add: u_makeZGridLine_axisValues_def eval_nat_numeral js_sub_def)
  have one: "u_makeZGridLine_axisValues u =
     [Fin 1, Fin 1, Fin 1, Fin 1, Fin 1, Fin 1, Fin 1, Fin 1, Fin 1, Fin 1, Fin 1]"
    using u(2,3)
    by (simp add: u_makeZGridLine_axisValues_def eval_nat_numeral js_sub_def tenth
        floor_rat_numeral)
  show ?thesis using w(1) u(1) five one by simp
qed

section \<open>Construction\<close>

text \<open>
  Claim C10. When the configuration has no \<open>axis\<close> field, the constructor takes the
  X names \<open>A\<close> to \<open>E\<close> and the Y names \<open>1\<close> to \<open>5\<close>, and the grid it builds has
  5 rows of 5 cells.
\<close>

theorem C10_default_axis:
  assumes "param_axis p = None"
  shows "\<exists>w. MatrixHeightMap p = Returned w \<and>
           XAxisNames w = [''A'', ''B'', ''C'', ''D'', ''E''] \<and>
           YAxisNames w = [''1'', ''2'', ''3'', ''4'', ''5''] \<and>
           mX w = 5 \<and> mY w = 5 \<and>
           length (matrix w) = 5 \<and> list_all (\<lambda>row. length row = 5) (matrix w)"
proof -
  obtain w where w: "MatrixHeightMap p = Returned w" "wf w"
    "mX w = length (XAxisNames w)" "mY w = length (YAxisNames w)"
    "XAxisNames w = [''A'', ''B'', ''C'', ''D'', ''E'']"
    "YAxisNames w = [''1'', ''2'', ''3'', ''4'', ''5'']"
    using construct_returns [of p] assms by auto
  have five: "mX w = 5" "mY w = 5" using w(3-6) by simp_all
  have "length (matrix w) = mY w" "list_all (\<lambda>row. length row = mX w) (matrix w)"
    using w(2) by (simp_all add: wf_def)
  then show ?thesis using w(1,5,6) five by simp
qed

theorem C10_default_axis_witness:
  "param_axis default_params = None \<and>
   (\<exists>w. MatrixHeightMap default_params = Returned w \<and>
        XAxisNames w = [''A'', ''B'', ''C'', ''D'', ''E''] \<and>
        YAxisNames w = [''1'', ''2'', ''3'', ''4'', ''5''] \<and>
        mX w = 5 \<and> mY w = 5 \<and>
        length (matrix w) = 5 \<and> list_all (\<lambda>row. length row = 5) (matrix w))"
proof -
  have a: "param_axis default_params = None" by (simp add: default_params_def)
  show ?thesis using a C10_default_axis [OF a] by simp
qed

section \<open>Replacing the grid\<close>

text \<open>
  Claim C4, as stated: for every grid of the configured dimensions, the external grid
  read back after \<open>setData\<close> equals the input within five-decimal rounding. It fails
  for an entry outside the range: \<open>_initMatrix\<close> clamps the normalised value, so on the
  example with range 0 to 100 the entry 150 is read back as 100.
\<close>

theorem C4_counterexample:
  "length [[Fin 150, Fin 0], [Fin 0, Fin 0]] = mY (example_widget None) \<and>
   list_all (\<lambda>row. length row = mX (example_widget None)) [[Fin 150, Fin 0], [Fin 0, Fin 0]] \<and>
   toExternalGrid (state_of (setData (example_widget None)
      (Some [[Fin 150, Fin 0], [Fin 0, Fin 0]]))) = Some [[Fin 100, Fin 0], [Fin 0, Fin 0]] \<and>
   \<not> near (1 / 200000) (Fin 100) (Fin 150)"
proof -
  let ?w = "u_computeChart (u_initMatrix (example_widget None)
              (Some [[Fin 150, Fin 0], [Fin 0, Fin 0]]))"
  have "wf ?w" by (rule setData_wf)
  then have "toExternalGrid ?w =
    Some (map (\<lambda>y. map (\<lambda>x. round5 (u_convertValueForMatrix ?w (cell_value (matrix ?w ! y ! x))))
                 [0..<mX ?w]) [0..<mY ?w])"
    by (intro toExternalGrid_rect) (simp_all add: wf_def)
  then show ?thesis
    by (simp add: setData_def built_fields example_widget_eq init_cell_value data_at_def
        u_convertValueFromMatrix_def u_convertValueForMatrix_def clamp01_def js_sub_def js_gt_def
        round5_numeral round5_zero upt_2 near_def)
qed

text \<open>
  Claim C4, amended. Let \<open>min\<close> and \<open>max\<close> be finite, of size at most 1000000, with
  \<open>max - min\<close> at least \<open>2\<^sup>-\<^sup>1\<^sup>0\<^sup>0\<^sup>0\<close>, and let the grid have the configured dimensions and
  only finite entries between \<open>min\<close> and \<open>max\<close>. Then \<open>setData\<close> returns, the external
  grid built from the matrix exists, and each of its entries differs from the input
  entry at the same place by at most 0.00001. The bound is the half unit of
  \<open>Math.round\<close> plus the error of the seven roundings on the way. On the range from 0
  to 100 the entry 0.453125 is read back as 0.45312.
\<close>

theorem C4_setData_round_trip:
  assumes "finite_val (minZ w) = Some a" and "finite_val (maxZ w) = Some b"
    and "pow2 (- 1000) \<le> b - a" and "\<bar>a\<bar> \<le> 1000000" and "\<bar>b\<bar> \<le> 1000000"
    and "length d = mY w" and "list_all (\<lambda>row. length row = mX w) d"
    and "list_all (list_all (in_range a b)) d"
  shows "\<exists>g. toExternalGrid (state_of (setData w (Some d))) = Some g \<and>
             list_all2 (list_all2 (near (1 / 100000))) g d"
proof -
  let ?w = "u_computeChart (u_initMatrix w (Some d))"
  let ?f = "\<lambda>x. round5 (u_convertValueForMatrix w (clamp01 (u_convertValueFromMatrix w x)))"
  have rows: "length (d ! y) = mX w" if "y < mY w" for y
    using that assms(6,7) by (simp add: list_all_length)
  have conv: "u_convertValueForMatrix ?w = u_convertValueForMatrix w"
    by (rule ext) (simp add: u_convertValueForMatrix_def built_fields)
  have entry: "round5 (u_convertValueForMatrix ?w (cell_value (matrix ?w ! y ! x))) =
               ?f (d ! y ! x)" if "y < mY w" "x < mX w" for x y
  proof -
    have "data_at (Some d) x y = Some (d ! y ! x)"
      using that assms(6) rows [OF that(1)] by (simp add: data_at_def)
    then have "cell_value (matrix ?w ! y ! x) = clamp01 (u_convertValueFromMatrix w (d ! y ! x))"
      using that by (simp add: built_fields init_cell_value)
    then show ?thesis by (simp add: conv)
  qed
  have "wf ?w" by (rule setData_wf)
  then have "toExternalGrid ?w =
    Some (map (\<lambda>y. map (\<lambda>x. round5 (u_convertValueForMatrix ?w (cell_value (matrix ?w ! y ! x))))
                 [0..<mX ?w]) [0..<mY ?w])"
    by (intro toExternalGrid_rect) (simp_all add: wf_def)
  also have "\<dots> = Some (map (\<lambda>y. map (\<lambda>x. ?f (d ! y ! x)) [0..<mX w]) [0..<mY w])"
    using entry by (simp add: built_fields)
  also have "\<dots> = Some (map (map ?f) d)"
    using grid_of_nth [of d "mY w" "mX w" ?f] assms(6) rows by simp
  finally have g: "toExternalGrid (state_of (setData w (Some d))) = Some (map (map ?f) d)"
    by (simp add: setData_def)
  have "near (1 / 100000) (?f x) x" if "row \<in> set d" "x \<in> set row" for row x
    using entry_near [OF assms(1-5), of x] assms(8) that by (auto simp add: list_all_iff)
  then have "list_all2 (list_all2 (near (1 / 100000))) (map (map ?f) d) d"
    by (simp add: list_all2_map1 list_all2_same)
  then show ?thesis using g by blast
qed

theorem C4_setData_round_trip_witness:
  "finite_val (minZ (example_widget None)) = Some 0 \<and>
   finite_val (maxZ (example_widget None)) = Some 100 \<and>
   pow2 (- 1000) \<le> 100 - 0 \<and> \<bar>0 :: rat\<bar> \<le> 1000000 \<and> \<bar>100 :: rat\<bar> \<le> 1000000 \<and>
   length [[Fin 10, Fin (29 / 64)], [Fin 100, Fin 0]] = mY (example_widget None) \<and>
   list_all (\<lambda>row. length row = mX (example_widget None))
     [[Fin 10, Fin (29 / 64)], [Fin 100, Fin 0]] \<and>
   list_all (list_all (in_range 0 100)) [[Fin 10, Fin (29 / 64)], [Fin 100, Fin 0]] \<and>
   toExternalGrid (state_of (setData (example_widget None)
     (Some [[Fin 10, Fin (29 / 64)], [Fin 100, Fin 0]]))) =
     Some [[Fin 10, Fin (8162684252616477 / 18014398509481984)], [Fin 100, Fin 0]] \<and>
   list_all2 (list_all2 (near (1 / 100000)))
     [[Fin 10, Fin (8162684252616477 / 18014398509481984)], [Fin 100, Fin 0]]
     [[Fin 10, Fin (29 / 64)], [Fin 100, Fin 0]]"
proof -
  have lo: "finite_val (minZ (example_widget None)) = Some 0"
    and hi: "finite_val (maxZ (example_widget None)) = Some 100"
    by (simp_all add: example_widget_eq)
  have small: "pow2 (- 1000) \<le> 100 - 0" using pow2_m1000_le by simp
  have a: "\<bar>0 :: rat\<bar> \<le> 1000000" and b: "\<bar>100 :: rat\<bar> \<le> 1000000" by simp_all
  have h: "length [[Fin 10, Fin (29 / 64)], [Fin 100, Fin 0]] = mY (example_widget None)"
    by (simp add: example_widget_eq)
  have n: "list_all (\<lambda>row. length row = mX (example_widget None))
             [[Fin 10, Fin (29 / 64)], [Fin 100, Fin 0]]"
    by (simp add: example_widget_eq)
  have v: "list_all (list_all (in_range 0 100)) [[Fin 10, Fin (29 / 64)], [Fin 100, Fin 0]]"
    by (simp add: in_range_def)
  show ?thesis
    using lo hi small h n v C4_setData_round_trip [OF lo hi small a b h n v]
    by (simp add: example_read_back)
qed

text \<open>
  Claim C5, as stated: \<open>setData\<close> with a grid whose row count differs from the number
  of Y names raises a dimension error and leaves the stored grid unchanged. The source
  has no such check: on the two-row example, \<open>setData\<close> with a single row returns, and
  the stored values have changed (to the binary64 numbers nearest to 0.1 and 0.2).
\<close>

theorem C5_counterexample:
  "length [[Fin 10, Fin 20]] \<noteq> mY (example_widget None) \<and>
   setData (example_widget None) (Some [[Fin 10, Fin 20]]) =
     Returned (state_of (setData (example_widget None) (Some [[Fin 10, Fin 20]]))) \<and>
   map (map cell_value) (matrix (example_widget None)) = [[Fin 0, Fin 0], [Fin 0, Fin 0]] \<and>
   map (map cell_value)
     (matrix (state_of (setData (example_widget None) (Some [[Fin 10, Fin 20]])))) =
     [[Fin (3602879701896397 / 36028797018963968), Fin (3602879701896397 / 18014398509481984)],
      [Fin 0, Fin 0]]"
  by (simp add: setData_def setData_values example_widget_eq zero_cell_def data_at_def
      u_convertValueFromMatrix_def clamp01_def js_sub_def js_gt_def upt_2 tenth fifth)

text \<open>
  Claim C5, amended. \<open>setData\<close> never raises and always replaces the stored grid by a
  grid of \<open>mY\<close> rows and \<open>mX\<close> columns, whatever the dimensions of the payload: a cell that
  the payload covers holds the payload's entry, normalised and clamped; a cell that the
  payload does not cover (a missing row, a short row, or no payload at all) holds 0; rows
  and entries of the payload beyond the configured dimensions are not read.
\<close>

theorem C5_setData_replaces:
  "\<exists>w'. setData w d = Returned w' \<and> wf w' \<and> mX w' = mX w \<and> mY w' = mY w \<and>
        map (map cell_value) (matrix w') =
          map (\<lambda>y. map (\<lambda>x. clamp01 (case data_at d x y of
                                         Some e \<Rightarrow> u_convertValueFromMatrix w e
                                       | None \<Rightarrow> Fin 0)) [0..<mX w]) [0..<mY w]"
  using setData_wf [of w d] setData_values [of w d]
  by (simp add: setData_def built_fields)

theorem C5_setData_replaces_witness:
  "\<exists>w'. setData (example_widget None) (Some [[Fin 10, Fin 20], [Fin 30], [Fin 40, Fin 50]]) =
          Returned w' \<and>
        wf w' \<and> mX w' = 2 \<and> mY w' = 2 \<and>
        map (map cell_value) (matrix w') =
          [[Fin (3602879701896397 / 36028797018963968),
            Fin (3602879701896397 / 18014398509481984)],
           [Fin (5404319552844595 / 18014398509481984), Fin 0]]"
  using C5_setData_replaces
    [of "example_widget None" "Some [[Fin 10, Fin 20], [Fin 30], [Fin 40, Fin 50]]"]
  by (simp add: example_widget_eq data_at_def u_convertValueFromMatrix_def clamp01_def
      js_sub_def js_gt_def upt_2 tenth fifth three_tenths)

end
